theory Spec2Isabelle
  imports Main "HOL-Library.Word" "HOL-Library.Multiset"
begin

section \<open>JavaScript values\<close>

text \<open>
  The review gallery is a browser script (\<open>script.js\<close>, and a second variant of it whose
  workflow actions navigate instead of calling). Its strings are sequences of 16-bit code
  units; \<open>ascii\<close> embeds the literals of the source.
\<close>

type_synonym jschar = "16 word"
type_synonym jsstring = "jschar list"

definition ascii :: "string \<Rightarrow> jsstring" where
  "ascii s = map of_char s"

text \<open>
  Values as \<open>JSON.parse\<close> produces them, and \<open>undefined\<close>. Numbers are kept as integers:
  the script only tests them for truthiness.
\<close>

datatype jsval =
    JUndefined
  | JNull
  | JBool bool
  | JNum int
  | JStr jsstring
  | JArr "jsval list"
  | JObj "(jsstring \<times> jsval) list"

fun truthy :: "jsval \<Rightarrow> bool" where
  "truthy JUndefined = False"
| "truthy JNull = False"
| "truthy (JBool b) = b"
| "truthy (JNum n) = (n \<noteq> 0)"
| "truthy (JStr s) = (s \<noteq> [])"
| "truthy (JArr xs) = True"
| "truthy (JObj kvs) = True"

text \<open>
  What the script can throw or catch. \<open>FetchFailed\<close> is the rejection of \<open>fetch\<close> on a
  network error, \<open>JsonSyntaxError\<close> the rejection of \<open>response.json()\<close> on a body that does
  not parse, \<open>TypeError\<close> a property read on \<open>null\<close>, a call of something that is no
  function, or a spread of something not iterable. \<open>Error\<close> is \<open>new Error(...)\<close> with the
  message text kept symbolic.
\<close>

datatype err_text =
    FromBody jsval
  | ServerError nat
  | ManifestFetchFailed nat

datatype js_error =
    FetchFailed
  | JsonSyntaxError
  | TypeError
  | Error err_text

text \<open>
  Reading a property \<open>v.k\<close>, for the names the script reads (\<open>order\<close>, \<open>updated_at\<close>,
  \<open>final_key\<close>, \<open>error\<close>): none of them is a property of a string, number, boolean or
  array, so there the read gives \<open>undefined\<close>. In an object with a repeated key the last
  one counts.
\<close>

fun get_prop :: "jsval \<Rightarrow> jsstring \<Rightarrow> js_error + jsval" where
  "get_prop JUndefined k = Inl TypeError"
| "get_prop JNull k = Inl TypeError"
| "get_prop (JObj kvs) k = Inr (case map_of (rev kvs) k of None \<Rightarrow> JUndefined | Some v \<Rightarrow> v)"
| "get_prop v k = Inr JUndefined"

text \<open>\<open>Array.prototype.splice(start, deleteCount, ...items)\<close> for a start that is not negative:
  the array afterwards, and the removed elements.\<close>

definition splice :: "'a list \<Rightarrow> nat \<Rightarrow> nat \<Rightarrow> 'a list \<Rightarrow> 'a list \<times> 'a list" where
  "splice xs start deleteCount items =
     (let s = min start (length xs);
          c = min deleteCount (length xs - s)
      in (take s xs @ items @ drop (s + c) xs, take c (drop s xs)))"

text \<open>The spread \<open>[...v]\<close>: an array is copied, a string is spread into its code points
  (a surrogate pair stays together), anything else that is truthy is not iterable.\<close>

definition is_high_surrogate :: "jschar \<Rightarrow> bool" where
  "is_high_surrogate c = (0xD800 \<le> c \<and> c \<le> 0xDBFF)"

definition is_low_surrogate :: "jschar \<Rightarrow> bool" where
  "is_low_surrogate c = (0xDC00 \<le> c \<and> c \<le> 0xDFFF)"

fun code_points :: "jsstring \<Rightarrow> jsstring list" where
  "code_points [] = []"
| "code_points [c] = [[c]]"
| "code_points (c # d # cs) =
     (if is_high_surrogate c \<and> is_low_surrogate d then [c, d] # code_points cs
      else [c] # code_points (d # cs))"

fun spread :: "jsval \<Rightarrow> js_error + jsval list" where
  "spread (JArr xs) = Inr xs"
| "spread (JStr s) = Inr (map JStr (code_points s))"
| "spread v = Inl TypeError"

section \<open>Session state\<close>

text \<open>
  The globals of the script (\<open>photoOrder\<close>, \<open>originalOrder\<close>, \<open>uid\<close>, \<open>reviewToken\<close>,
  \<open>hasUnsavedChanges\<close>) and the parts of the page its handlers write. The rendered gallery
  items (number badges, age buckets, images) are not part of the model.
\<close>

datatype save_status = NoStatus | UnsavedChanges | Saving | Saved | SaveFailed

datatype message = Literal string | ErrorMessage js_error

datatype confirmation = OrderApproved | OrderRejected jsstring

record session =
  photoOrder :: jsval
  originalOrder :: "jsval list"
  uid :: "jsstring option"
  reviewToken :: "jsstring option"
  hasUnsavedChanges :: bool
  orderUidText :: jsstring
  photoCount :: nat
  loadingShown :: bool
  galleryShown :: bool
  actionBarHidden :: bool
  instructionsHidden :: bool
  errorTitle :: "string option"
  errorDetail :: "message option"
  bottomActionsShown :: bool
  sortableActive :: bool
  unloadGuard :: bool
  saveOrderBtnDisabled :: bool
  saveStatus :: save_status
  approveBtnDisabled :: bool
  approveBtnText :: string
  rejectBtnDisabled :: bool
  rejectBtnText :: string
  bottomBtnsDisabled :: bool
  rejectModalShown :: bool
  rejectReason :: jsstring
  confirmModal :: "confirmation option"

text \<open>
  What a handler does to the world outside the page state: the requests it issues, the
  dialogs it opens, a navigation, an exception nobody catches. A \<open>fetch\<close> is answered by
  a network failure or by a response with a status and a body; the body is \<open>None\<close> when
  it does not parse as JSON. Each handler is first given as a function run to its end,
  with the answers to its requests and dialogs as arguments; the handlers that wait for
  the network are then split at their \<open>await\<close>, and the runs of a session interleave the
  halves with other events.
\<close>

datatype request = Get jsstring | Post jsstring jsval

datatype effect =
    Fetch request
  | Alert string "js_error option"
  | Confirm string
  | Navigate jsstring
  | Uncaught js_error

datatype fetch_result = NetworkFailure | Response nat "jsval option"

definition ok :: "nat \<Rightarrow> bool" where
  "ok status = (200 \<le> status \<and> status \<le> 299)"

section \<open>Interactive reordering\<close>

definition markAsChanged :: "session \<Rightarrow> session" where
  "markAsChanged st =
     st\<lparr>hasUnsavedChanges := True, saveOrderBtnDisabled := False, saveStatus := UnsavedChanges\<rparr>"

text \<open>The \<open>onEnd\<close> callback given to the drag library in \<open>initializeSortable\<close>.\<close>

definition onEnd :: "session \<Rightarrow> nat \<Rightarrow> nat \<Rightarrow> session \<times> effect list" where
  "onEnd st oldIndex newIndex =
     (if oldIndex \<noteq> newIndex then
        (case photoOrder st of
           JArr xs \<Rightarrow>
             (let (ys, removed) = splice xs oldIndex 1 [];
                  movedItem = (case removed of [] \<Rightarrow> JUndefined | m # _ \<Rightarrow> m);
                  (zs, _) = splice ys newIndex 0 [movedItem]
              in (markAsChanged (st\<lparr>photoOrder := JArr zs\<rparr>), []))
         | _ \<Rightarrow> (st, [Uncaught TypeError]))
      else (st, []))"

section \<open>Photo-list resolution\<close>

definition S3_BASE_URL :: jsstring where
  "S3_BASE_URL = ascii ''https://order-by-age-uploads.s3.amazonaws.com''"

text \<open>A template literal \<open>${v}\<close> of a global that is \<open>null\<close> or a string, and the same
  global as a field of a request body.\<close>

definition template :: "jsstring option \<Rightarrow> jsstring" where
  "template v = (case v of None \<Rightarrow> ascii ''null'' | Some s \<Rightarrow> s)"

definition json_field :: "jsstring option \<Rightarrow> jsval" where
  "json_field v = (case v of None \<Rightarrow> JNull | Some s \<Rightarrow> JStr s)"

definition showLoading :: "bool \<Rightarrow> session \<Rightarrow> session" where
  "showLoading shown st =
     (let st1 = st\<lparr>loadingShown := shown\<rparr>
      in if shown then st1\<lparr>galleryShown := False\<rparr> else st1)"

definition showError :: "string \<Rightarrow> message \<Rightarrow> session \<Rightarrow> session" where
  "showError title detail st =
     st\<lparr>loadingShown := False, galleryShown := False, actionBarHidden := True,
        instructionsHidden := True, errorTitle := Some title, errorDetail := Some detail\<rparr>"

text \<open>
  \<open>loadExistingOrder\<close>: one GET of the custom-order document. Everything thrown inside
  its \<open>try\<close> (the network failure, the body that does not parse, the property read on a
  body that is \<open>null\<close>) ends in \<open>return null\<close>; so does a response that is not \<open>ok\<close>.
\<close>

definition loadExistingOrder :: "session \<Rightarrow> fetch_result \<Rightarrow> jsval \<times> effect list" where
  "loadExistingOrder st res =
     (let customOrderUrl =
            S3_BASE_URL @ ascii ''/metadata/'' @ template (uid st) @ ascii ''/custom_order.json''
      in ((case res of
             NetworkFailure \<Rightarrow> JNull
           | Response status body \<Rightarrow>
               if ok status then
                 (case body of
                    None \<Rightarrow> JNull
                  | Some data \<Rightarrow>
                      (case get_prop data (ascii ''updated_at'') of
                         Inl e \<Rightarrow> JNull
                       | Inr updated_at \<Rightarrow>
                           (case get_prop data (ascii ''order'') of
                              Inl e \<Rightarrow> JNull
                            | Inr order \<Rightarrow> order)))
               else JNull),
          [Fetch (Get customOrderUrl)]))"

text \<open>\<open>s.endsWith(suffix)\<close> and \<open>a.split('/').pop()\<close>, the part after the last slash.\<close>

definition endsWith :: "jsstring \<Rightarrow> jsstring \<Rightarrow> bool" where
  "endsWith s suffix =
     (length suffix \<le> length s \<and> drop (length s - length suffix) s = suffix)"

definition filename :: "jsstring \<Rightarrow> jsstring" where
  "filename a = rev (takeWhile (\<lambda>c. c \<noteq> of_char CHR ''/'') (rev a))"

text \<open>
  The \<open>filter\<close> and the \<open>map\<close> over the manifest, in one pass: an entry is kept when
  \<open>entry.final_key && !entry.final_key.endsWith('.ready')\<close>, and gives its
  \<open>final_key\<close>. The read throws on an entry that is \<open>null\<close>, and \<open>endsWith\<close> is no
  function of a truthy \<open>final_key\<close> that is not a string; every exception here is a
  \<open>TypeError\<close>, so the pass throws what the source throws.
\<close>

fun manifest_keys :: "jsval list \<Rightarrow> js_error + jsstring list" where
  "manifest_keys [] = Inr []"
| "manifest_keys (entry # rest) =
     (case get_prop entry (ascii ''final_key'') of
        Inl e \<Rightarrow> Inl e
      | Inr final_key \<Rightarrow>
          if truthy final_key then
            (case final_key of
               JStr s \<Rightarrow>
                 (case manifest_keys rest of
                    Inl e \<Rightarrow> Inl e
                  | Inr ks \<Rightarrow> Inr (if endsWith s (ascii ''.ready'') then ks else s # ks))
             | _ \<Rightarrow> Inl TypeError)
          else manifest_keys rest)"

text \<open>
  \<open>Array.prototype.sort\<close> with a comparison function is stable, and for a consistent
  comparison every stable sort gives the same array; the model is insertion sort. The
  comparison of the source takes the file names and calls \<open>localeCompare\<close>, which depends
  on the browser's locale and is a parameter here.
\<close>

fun insert_sorted :: "('a \<Rightarrow> 'a \<Rightarrow> int) \<Rightarrow> 'a \<Rightarrow> 'a list \<Rightarrow> 'a list" where
  "insert_sorted cmp x [] = [x]"
| "insert_sorted cmp x (y # ys) =
     (if cmp x y \<le> 0 then x # y # ys else y # insert_sorted cmp x ys)"

definition sort_js :: "('a \<Rightarrow> 'a \<Rightarrow> int) \<Rightarrow> 'a list \<Rightarrow> 'a list" where
  "sort_js cmp xs = foldr (insert_sorted cmp) xs []"

definition by_filename :: "(jsstring \<Rightarrow> jsstring \<Rightarrow> int) \<Rightarrow> jsstring \<Rightarrow> jsstring \<Rightarrow> int" where
  "by_filename localeCompare a b = localeCompare (filename a) (filename b)"

text \<open>\<open>renderGallery\<close> calls \<open>photoOrder.forEach\<close> and \<open>s3Key.split\<close>: it throws unless
  \<open>photoOrder\<close> is an array of strings.\<close>

fun is_string :: "jsval \<Rightarrow> bool" where
  "is_string (JStr s) = True"
| "is_string v = False"

definition renderGallery :: "session \<Rightarrow> js_error + session" where
  "renderGallery st =
     (case photoOrder st of
        JArr xs \<Rightarrow> if list_all is_string xs then Inr (st\<lparr>galleryShown := True\<rparr>) else Inl TypeError
      | _ \<Rightarrow> Inl TypeError)"

definition initializeSortable :: "session \<Rightarrow> session" where
  "initializeSortable st = st\<lparr>sortableActive := True\<rparr>"

text \<open>The end of \<open>loadPhotos\<close>, from the snapshot \<open>originalOrder = [...photoOrder]\<close> on:
  the state, and what was thrown if anything.\<close>

definition finish_load :: "session \<Rightarrow> session \<times> js_error option" where
  "finish_load st =
     (case spread (photoOrder st) of
        Inl e \<Rightarrow> (st, Some e)
      | Inr snapshot \<Rightarrow>
          (let st1 = st\<lparr>originalOrder := snapshot\<rparr>
           in case renderGallery st1 of
                Inl e \<Rightarrow> (st1, Some e)
              | Inr st2 \<Rightarrow>
                  (let st3 = initializeSortable st2;
                       st4 = st3\<lparr>photoCount := length snapshot, saveOrderBtnDisabled := True\<rparr>;
                       st5 = (if length snapshot > 20 then st4\<lparr>bottomActionsShown := True\<rparr> else st4)
                   in (showLoading False st5, None))))"

definition loadPhotos ::
  "(jsstring \<Rightarrow> jsstring \<Rightarrow> int) \<Rightarrow> session \<Rightarrow> fetch_result \<Rightarrow> fetch_result
     \<Rightarrow> session \<times> effect list \<times> js_error option" where
  "loadPhotos localeCompare st customRes manifestRes =
     (let st1 = showLoading True st;
          (existingOrder, effs) = loadExistingOrder st1 customRes
      in if truthy existingOrder then
           (let (st2, thrown) = finish_load (st1\<lparr>photoOrder := existingOrder\<rparr>)
            in (st2, effs, thrown))
         else
           (let manifestUrl =
                  S3_BASE_URL @ ascii ''/metadata/'' @ template (uid st1) @ ascii ''/final_filenames.json'';
                effs2 = effs @ [Fetch (Get manifestUrl)]
            in case manifestRes of
                 NetworkFailure \<Rightarrow> (st1, effs2, Some FetchFailed)
               | Response status body \<Rightarrow>
                   if \<not> ok status then (st1, effs2, Some (Error (ManifestFetchFailed status)))
                   else
                     (case body of
                        None \<Rightarrow> (st1, effs2, Some JsonSyntaxError)
                      | Some manifest \<Rightarrow>
                          (case manifest of
                             JArr entries \<Rightarrow>
                               (case manifest_keys entries of
                                  Inl e \<Rightarrow> (st1, effs2, Some e)
                                | Inr keys \<Rightarrow>
                                    (let photoEntries = sort_js (by_filename localeCompare) keys;
                                         (st2, thrown) =
                                           finish_load (st1\<lparr>photoOrder := JArr (map JStr photoEntries)\<rparr>)
                                     in (st2, effs2, thrown)))
                           | _ \<Rightarrow> (st1, effs2, Some TypeError)))))"

section \<open>Session bootstrap\<close>

text \<open>The \<open>DOMContentLoaded\<close> handler. \<open>URLSearchParams.get\<close> gives \<open>null\<close> for a
  parameter that is absent and the empty string for one that is empty; both are falsy.\<close>

definition present :: "jsstring option \<Rightarrow> bool" where
  "present v = (case v of None \<Rightarrow> False | Some s \<Rightarrow> s \<noteq> [])"

definition onDOMContentLoaded ::
  "(jsstring \<Rightarrow> jsstring \<Rightarrow> int) \<Rightarrow> session \<Rightarrow> jsstring option \<Rightarrow> jsstring option
     \<Rightarrow> fetch_result \<Rightarrow> fetch_result \<Rightarrow> session \<times> effect list" where
  "onDOMContentLoaded localeCompare st uidParam tokenParam customRes manifestRes =
     (let st1 = st\<lparr>uid := uidParam, reviewToken := tokenParam,
                    orderUidText := (if present uidParam then template uidParam else ascii ''---'')\<rparr>
      in if \<not> present uidParam \<or> \<not> present tokenParam then
           (showError ''Invalid review link''
              (Literal ''Missing order ID or review token. Please use the link from your email.'') st1,
            [])
         else
           (let (st2, effs, thrown) = loadPhotos localeCompare st1 customRes manifestRes;
                st3 = (case thrown of
                         None \<Rightarrow> st2
                       | Some e \<Rightarrow> showError ''Failed to load photos'' (ErrorMessage e) st2)
            in (st3\<lparr>unloadGuard := True\<rparr>, effs)))"

text \<open>The \<open>beforeunload\<close> listener asks for confirmation when this holds.\<close>

definition beforeunload :: "session \<Rightarrow> bool" where
  "beforeunload st = (unloadGuard st \<and> hasUnsavedChanges st)"

section \<open>Action dispatch\<close>

definition SAVE_ORDER_LAMBDA_URL :: jsstring where
  "SAVE_ORDER_LAMBDA_URL = ascii ''https://YOUR_SAVE_ORDER_LAMBDA.lambda-url.us-east-2.on.aws/''"

definition REVIEW_GATE_LAMBDA_URL :: jsstring where
  "REVIEW_GATE_LAMBDA_URL = ascii ''https://YOUR_REVIEW_GATE_LAMBDA.lambda-url.us-east-2.on.aws/''"

text \<open>
  What \<open>saveOrder\<close>, \<open>approveOrder\<close> and \<open>submitRejection\<close> each do with the answer to
  their POST, inside their \<open>try\<close>: a response that is not \<open>ok\<close> throws an \<open>Error\<close> whose
  message is the body's \<open>error\<close> field when that is truthy (the body read as \<open>{}\<close> when it
  does not parse) and the status otherwise; a response that is \<open>ok\<close> is parsed, which
  throws when the body is not JSON.
\<close>

definition json_or_throw :: "fetch_result \<Rightarrow> js_error + jsval" where
  "json_or_throw res =
     (case res of
        NetworkFailure \<Rightarrow> Inl FetchFailed
      | Response status body \<Rightarrow>
          if \<not> ok status then
            (let error = (case body of None \<Rightarrow> JObj [] | Some v \<Rightarrow> v)
             in case get_prop error (ascii ''error'') of
                  Inl e \<Rightarrow> Inl e
                | Inr m \<Rightarrow> if truthy m then Inl (Error (FromBody m)) else Inl (Error (ServerError status)))
          else
            (case body of
               None \<Rightarrow> Inl JsonSyntaxError
             | Some result \<Rightarrow> Inr result))"

text \<open>\<open>saveOrder\<close>. The timer that clears the status text three seconds after a save is
  the separate step \<open>savedStatusTimeout\<close>.\<close>

definition saveOrder :: "session \<Rightarrow> fetch_result \<Rightarrow> session \<times> effect list" where
  "saveOrder st res =
     (let st1 = st\<lparr>saveOrderBtnDisabled := True, saveStatus := Saving\<rparr>;
          req = Fetch (Post SAVE_ORDER_LAMBDA_URL
                  (JObj [(ascii ''uid'', json_field (uid st1)),
                         (ascii ''review_token'', json_field (reviewToken st1)),
                         (ascii ''photo_order'', photoOrder st1)]));
          failed = (\<lambda>s e. (s\<lparr>saveStatus := SaveFailed, saveOrderBtnDisabled := False\<rparr>,
                            [req, Alert ''Failed to save order: '' (Some e)]))
      in case json_or_throw res of
           Inl e \<Rightarrow> failed st1 e
         | Inr result \<Rightarrow>
             (let st2 = st1\<lparr>hasUnsavedChanges := False\<rparr>
              in case spread (photoOrder st2) of
                   Inl e \<Rightarrow> failed st2 e
                 | Inr snapshot \<Rightarrow> (st2\<lparr>originalOrder := snapshot, saveStatus := Saved\<rparr>, [req])))"

definition savedStatusTimeout :: "session \<Rightarrow> session" where
  "savedStatusTimeout st = (if saveStatus st = Saved then st\<lparr>saveStatus := NoStatus\<rparr> else st)"

definition showConfirmation :: "confirmation \<Rightarrow> session \<Rightarrow> session" where
  "showConfirmation c st = st\<lparr>confirmModal := Some c\<rparr>"

definition closeConfirmModal :: "session \<Rightarrow> session" where
  "closeConfirmModal st = st\<lparr>confirmModal := None\<rparr>"

definition disableAllActions :: "session \<Rightarrow> session" where
  "disableAllActions st =
     st\<lparr>saveOrderBtnDisabled := True, approveBtnDisabled := True, rejectBtnDisabled := True,
        bottomBtnsDisabled := True, hasUnsavedChanges := False\<rparr>"

text \<open>\<open>approveOrder\<close> of \<open>script.js\<close>; \<open>proceed\<close> is the operator's answer to the
  \<open>confirm\<close> dialog, asked only when there are unsaved changes.\<close>

definition approveOrder ::
  "session \<Rightarrow> bool \<Rightarrow> fetch_result \<Rightarrow> fetch_result \<Rightarrow> session \<times> effect list" where
  "approveOrder st proceed saveRes approveRes =
     (let asked = Confirm ''You have unsaved changes. Save them before approving?'';
          (st1, effs1) =
            (if hasUnsavedChanges st then
               (if proceed then (let (s, effs) = saveOrder st saveRes in (s, asked # effs))
                else (st, [asked]))
             else (st, []));
          st2 = st1\<lparr>approveBtnDisabled := True, approveBtnText := ''Approving...''\<rparr>;
          req = Fetch (Post REVIEW_GATE_LAMBDA_URL
                  (JObj [(ascii ''uid'', json_field (uid st2)),
                         (ascii ''review_token'', json_field (reviewToken st2)),
                         (ascii ''action'', JStr (ascii ''approve''))]))
      in case json_or_throw approveRes of
           Inr result \<Rightarrow>
             (disableAllActions (showConfirmation OrderApproved st2), effs1 @ [req])
         | Inl e \<Rightarrow>
             (st2\<lparr>approveBtnDisabled := False, approveBtnText := ''Approve & Send''\<rparr>,
              effs1 @ [req, Alert ''Failed to approve: '' (Some e)]))"

definition rejectOrder :: "session \<Rightarrow> session" where
  "rejectOrder st = st\<lparr>rejectModalShown := True\<rparr>"

definition closeRejectModal :: "session \<Rightarrow> session" where
  "closeRejectModal st = st\<lparr>rejectModalShown := False, rejectReason := []\<rparr>"

text \<open>\<open>String.prototype.trim\<close> removes white space and line terminators at both ends:
  TAB, LF, VT, FF, CR, SP, NBSP, the byte order mark, and the Unicode space separators.\<close>

definition is_whitespace :: "jschar \<Rightarrow> bool" where
  "is_whitespace c =
     (c \<in> {0x0009, 0x000A, 0x000B, 0x000C, 0x000D, 0x0020, 0x00A0, 0x1680,
            0x2028, 0x2029, 0x202F, 0x205F, 0x3000, 0xFEFF}
      \<or> (0x2000 \<le> c \<and> c \<le> 0x200A))"

definition trim :: "jsstring \<Rightarrow> jsstring" where
  "trim s = rev (dropWhile is_whitespace (rev (dropWhile is_whitespace s)))"

definition submitRejection :: "session \<Rightarrow> fetch_result \<Rightarrow> session \<times> effect list" where
  "submitRejection st res =
     (let reason = trim (rejectReason st)
      in if reason = [] then (st, [Alert ''Please provide a reason for rejection.'' None])
         else
           (let st1 = closeRejectModal st;
                st2 = st1\<lparr>rejectBtnDisabled := True, rejectBtnText := ''Rejecting...''\<rparr>;
                req = Fetch (Post REVIEW_GATE_LAMBDA_URL
                        (JObj [(ascii ''uid'', json_field (uid st2)),
                               (ascii ''review_token'', json_field (reviewToken st2)),
                               (ascii ''action'', JStr (ascii ''reject'')),
                               (ascii ''reason'', JStr reason)]))
            in case json_or_throw res of
                 Inr result \<Rightarrow>
                   (disableAllActions (showConfirmation (OrderRejected reason) st2), [req])
               | Inl e \<Rightarrow>
                   (st2\<lparr>rejectBtnDisabled := False, rejectBtnText := ''Reject''\<rparr>,
                    [req, Alert ''Failed to reject: '' (Some e)])))"

section \<open>The redirect variant: pause and extend\<close>

text \<open>The second variant of the script has \<open>pauseTimer\<close> and \<open>extendTimer\<close>, each a single
  assignment to \<open>window.location.href\<close>. \<open>minutes\<close> is taken as a natural number, written
  in decimal by the template literal.\<close>

definition API_BASE_URL :: jsstring where
  "API_BASE_URL = ascii ''https://w8i78lu05m.execute-api.us-east-2.amazonaws.com/prod''"

fun decimal :: "nat \<Rightarrow> jsstring" where
  "decimal n = (if n < 10 then [of_nat (48 + n)] else decimal (n div 10) @ [of_nat (48 + n mod 10)])"

definition pauseTimer :: "session \<Rightarrow> session \<times> effect list" where
  "pauseTimer st = (st, [Navigate (API_BASE_URL @ ascii ''/pause/'' @ template (reviewToken st))])"

definition extendTimer :: "session \<Rightarrow> nat \<Rightarrow> session \<times> effect list" where
  "extendTimer st minutes =
     (st, [Navigate (API_BASE_URL @ ascii ''/extend/'' @ template (reviewToken st)
                       @ ascii ''?minutes='' @ decimal minutes)])"

section \<open>The manifest selection as the specification words it\<close>

text \<open>
  An entry whose reading cannot throw: a record whose \<open>final_key\<close> is absent, falsy or a
  string. \<open>selected_keys\<close> follows the specification: the \<open>final_key\<close> of each entry whose
  key is present, not empty and does not end with \<open>.ready\<close>, in manifest order.
\<close>

definition record_entry :: "jsval \<Rightarrow> bool" where
  "record_entry entry =
     (case get_prop entry (ascii ''final_key'') of
        Inl e \<Rightarrow> False
      | Inr k \<Rightarrow> is_string k \<or> \<not> truthy k)"

definition selected_keys :: "jsval list \<Rightarrow> jsstring list" where
  "selected_keys entries =
     concat (map (\<lambda>entry.
        case get_prop entry (ascii ''final_key'') of
          Inr (JStr s) \<Rightarrow> if s \<noteq> [] \<and> \<not> endsWith s (ascii ''.ready'') then [s] else []
        | _ \<Rightarrow> []) entries)"

section \<open>Handlers in two halves\<close>

text \<open>
  \<open>saveOrder\<close>, \<open>approveOrder\<close> and \<open>submitRejection\<close> are \<open>async\<close>: each runs up to its
  \<open>await fetch(...)\<close> and returns to the event loop; the rest runs when the answer arrives,
  on the state of that moment, and other events are handled in between. (Reading the body
  is a second \<open>await\<close>, but the handler touches no state between the two, so the answer
  is delivered with its body.) The first half of each handler issues the request, whose
  body is built from the state at that time.
\<close>

definition saveOrder_begin :: "session \<Rightarrow> session \<times> effect list" where
  "saveOrder_begin st =
     (let st1 = st\<lparr>saveOrderBtnDisabled := True, saveStatus := Saving\<rparr>
      in (st1, [Fetch (Post SAVE_ORDER_LAMBDA_URL
                  (JObj [(ascii ''uid'', json_field (uid st1)),
                         (ascii ''review_token'', json_field (reviewToken st1)),
                         (ascii ''photo_order'', photoOrder st1)]))]))"

definition saveOrder_resume :: "session \<Rightarrow> fetch_result \<Rightarrow> session \<times> effect list" where
  "saveOrder_resume st res =
     (let failed = (\<lambda>s e. (s\<lparr>saveStatus := SaveFailed, saveOrderBtnDisabled := False\<rparr>,
                            [Alert ''Failed to save order: '' (Some e)]))
      in case json_or_throw res of
           Inl e \<Rightarrow> failed st e
         | Inr result \<Rightarrow>
             (let st2 = st\<lparr>hasUnsavedChanges := False\<rparr>
              in case spread (photoOrder st2) of
                   Inl e \<Rightarrow> failed st2 e
                 | Inr snapshot \<Rightarrow> (st2\<lparr>originalOrder := snapshot, saveStatus := Saved\<rparr>, [])))"

text \<open>What is waiting for an answer: a save, an approve that awaits the save it started,
  an approve that awaits its own call, a rejection with its trimmed reason.\<close>

datatype task = SaveTask | ApproveSaveTask | ApproveTask | RejectTask jsstring

text \<open>\<open>approveOrder\<close> from the disabling of its button to its \<open>fetch\<close>, its start (which
  stops at \<open>await saveOrder()\<close> when the operator chose to save), and its end.\<close>

definition approveOrder_post :: "session \<Rightarrow> session \<times> effect list" where
  "approveOrder_post st =
     (let st2 = st\<lparr>approveBtnDisabled := True, approveBtnText := ''Approving...''\<rparr>
      in (st2, [Fetch (Post REVIEW_GATE_LAMBDA_URL
                  (JObj [(ascii ''uid'', json_field (uid st2)),
                         (ascii ''review_token'', json_field (reviewToken st2)),
                         (ascii ''action'', JStr (ascii ''approve''))]))]))"

definition approveOrder_begin :: "session \<Rightarrow> bool \<Rightarrow> (session \<times> effect list) \<times> task" where
  "approveOrder_begin st proceed =
     (let asked = Confirm ''You have unsaved changes. Save them before approving?''
      in if hasUnsavedChanges st then
           (if proceed then
              (let (s, effs) = saveOrder_begin st in ((s, asked # effs), ApproveSaveTask))
            else
              (let (s, effs) = approveOrder_post st in ((s, asked # effs), ApproveTask)))
         else (approveOrder_post st, ApproveTask))"

definition approveOrder_resume :: "session \<Rightarrow> fetch_result \<Rightarrow> session \<times> effect list" where
  "approveOrder_resume st res =
     (case json_or_throw res of
        Inr result \<Rightarrow> (disableAllActions (showConfirmation OrderApproved st), [])
      | Inl e \<Rightarrow>
          (st\<lparr>approveBtnDisabled := False, approveBtnText := ''Approve & Send''\<rparr>,
           [Alert ''Failed to approve: '' (Some e)]))"

definition submitRejection_begin :: "session \<Rightarrow> (session \<times> effect list) \<times> task option" where
  "submitRejection_begin st =
     (let reason = trim (rejectReason st)
      in if reason = [] then ((st, [Alert ''Please provide a reason for rejection.'' None]), None)
         else
           (let st1 = closeRejectModal st;
                st2 = st1\<lparr>rejectBtnDisabled := True, rejectBtnText := ''Rejecting...''\<rparr>
            in ((st2, [Fetch (Post REVIEW_GATE_LAMBDA_URL
                         (JObj [(ascii ''uid'', json_field (uid st2)),
                                (ascii ''review_token'', json_field (reviewToken st2)),
                                (ascii ''action'', JStr (ascii ''reject'')),
                                (ascii ''reason'', JStr reason)]))]),
                Some (RejectTask reason))))"

definition submitRejection_resume ::
  "session \<Rightarrow> jsstring \<Rightarrow> fetch_result \<Rightarrow> session \<times> effect list" where
  "submitRejection_resume st reason res =
     (case json_or_throw res of
        Inr result \<Rightarrow> (disableAllActions (showConfirmation (OrderRejected reason) st), [])
      | Inl e \<Rightarrow>
          (st\<lparr>rejectBtnDisabled := False, rejectBtnText := ''Reject''\<rparr>,
           [Alert ''Failed to reject: '' (Some e)]))"

text \<open>The answer to a waiting task arrives: the state and effects, and the tasks that wait
  next. When the save that an approve awaited is done, the approve goes on to its own
  call at once.\<close>

fun resume :: "session \<Rightarrow> task \<Rightarrow> fetch_result \<Rightarrow> (session \<times> effect list) \<times> task list" where
  "resume st SaveTask r = (saveOrder_resume st r, [])"
| "resume st ApproveSaveTask r =
     (let (s1, effs1) = saveOrder_resume st r;
          (s2, effs2) = approveOrder_post s1
      in ((s2, effs1 @ effs2), [ApproveTask]))"
| "resume st ApproveTask r = (approveOrder_resume st r, [])"
| "resume st (RejectTask reason) r = (submitRejection_resume st reason r, [])"

section \<open>Sessions as runs of events\<close>

text \<open>
  After the page has loaded, events arrive one at a time: a completed drag, a click that
  starts a handler (with the operator's answer to the \<open>confirm\<close> dialog for approve), the
  operator editing the reason field of the reject dialog (\<open>TypeReason\<close>), the timer of
  the saved status, and the answer to the \<open>k\<close>-th waiting task. A configuration is the
  session state with the tasks that wait; answers may arrive in any order and drags may
  come between a request and its answer.
\<close>

datatype event =
    DragEnd nat nat
  | SaveOrder
  | ApproveOrder bool
  | RejectOrder
  | TypeReason jsstring
  | CloseRejectModal
  | SubmitRejection
  | CloseConfirmModal
  | SavedStatusTimeout
  | Answer nat fetch_result

fun step :: "session \<times> task list \<Rightarrow> event \<Rightarrow> (session \<times> task list) \<times> effect list" where
  "step (st, ts) (DragEnd i j) = (let (s, effs) = onEnd st i j in ((s, ts), effs))"
| "step (st, ts) SaveOrder = (let (s, effs) = saveOrder_begin st in ((s, ts @ [SaveTask]), effs))"
| "step (st, ts) (ApproveOrder proceed) =
     (let ((s, effs), t) = approveOrder_begin st proceed in ((s, ts @ [t]), effs))"
| "step (st, ts) RejectOrder = ((rejectOrder st, ts), [])"
| "step (st, ts) (TypeReason s) = ((st\<lparr>rejectReason := s\<rparr>, ts), [])"
| "step (st, ts) CloseRejectModal = ((closeRejectModal st, ts), [])"
| "step (st, ts) SubmitRejection =
     (let ((s, effs), t) = submitRejection_begin st
      in ((s, ts @ (case t of None \<Rightarrow> [] | Some w \<Rightarrow> [w])), effs))"
| "step (st, ts) CloseConfirmModal = ((closeConfirmModal st, ts), [])"
| "step (st, ts) SavedStatusTimeout = ((savedStatusTimeout st, ts), [])"
| "step (st, ts) (Answer k r) =
     (if k < length ts then
        (let ((s, effs), next_tasks) = resume st (ts ! k) r
         in ((s, take k ts @ drop (Suc k) ts @ next_tasks), effs))
      else ((st, ts), []))"

text \<open>
  Modelled from the spec: the page markup that binds the controls to the handlers is not
  among the sources. Following the specification, a control can be used while it is
  displayed and not disabled. The save, approve and reject controls are taken to sit in
  the action bar, which \<open>showError\<close> hides, with copies in the bottom actions, which only
  \<open>loadPhotos\<close> displays; a drag needs the drag library initialised on a displayed gallery;
  the reason field and the submission belong to the reject dialog, the closing of the
  confirmation to the confirmation dialog. The timer and the answers are not the
  operator's.
\<close>

fun enabled :: "session \<times> task list \<Rightarrow> event \<Rightarrow> bool" where
  "enabled (st, ts) (DragEnd i j) = (sortableActive st \<and> galleryShown st)"
| "enabled (st, ts) SaveOrder =
     ((\<not> actionBarHidden st \<and> \<not> saveOrderBtnDisabled st)
      \<or> (bottomActionsShown st \<and> \<not> bottomBtnsDisabled st))"
| "enabled (st, ts) (ApproveOrder proceed) =
     ((\<not> actionBarHidden st \<and> \<not> approveBtnDisabled st)
      \<or> (bottomActionsShown st \<and> \<not> bottomBtnsDisabled st))"
| "enabled (st, ts) RejectOrder =
     ((\<not> actionBarHidden st \<and> \<not> rejectBtnDisabled st)
      \<or> (bottomActionsShown st \<and> \<not> bottomBtnsDisabled st))"
| "enabled (st, ts) (TypeReason s) = rejectModalShown st"
| "enabled (st, ts) CloseRejectModal = rejectModalShown st"
| "enabled (st, ts) SubmitRejection = rejectModalShown st"
| "enabled (st, ts) CloseConfirmModal = (confirmModal st \<noteq> None)"
| "enabled (st, ts) SavedStatusTimeout = True"
| "enabled (st, ts) (Answer k r) = (k < length ts)"

text \<open>A run of the session: an event on a control that cannot be used does nothing. The
  result is the last configuration and every effect of the run, in order.\<close>

fun operate :: "session \<times> task list \<Rightarrow> event list \<Rightarrow> (session \<times> task list) \<times> effect list" where
  "operate cfg [] = (cfg, [])"
| "operate cfg (ev # evs) =
     (if enabled cfg ev then
        (let (cfg1, effs1) = step cfg ev;
             (cfg2, effs2) = operate cfg1 evs
         in (cfg2, effs1 @ effs2))
      else operate cfg evs)"

fun is_fetch :: "effect \<Rightarrow> bool" where
  "is_fetch (Fetch req) = True"
| "is_fetch e = False"

text \<open>
  The bookkeeping the dirty flag is specified against. An event mutates \<open>photoOrder\<close> when
  it is a drag that moves an element; it completes a save when it is the successful
  answer to a save; it ends the review when it is the successful answer to an approve or
  reject call.
\<close>

definition succeeds :: "fetch_result \<Rightarrow> bool" where
  "succeeds r = (case json_or_throw r of Inl e \<Rightarrow> False | Inr v \<Rightarrow> True)"

fun mutates :: "session \<times> task list \<Rightarrow> event \<Rightarrow> bool" where
  "mutates (st, ts) (DragEnd i j) =
     (i \<noteq> j \<and> (case photoOrder st of JArr xs \<Rightarrow> True | _ \<Rightarrow> False))"
| "mutates cfg ev = False"

fun is_save_task :: "task \<Rightarrow> bool" where
  "is_save_task SaveTask = True"
| "is_save_task ApproveSaveTask = True"
| "is_save_task t = False"

fun is_review_task :: "task \<Rightarrow> bool" where
  "is_review_task ApproveTask = True"
| "is_review_task (RejectTask reason) = True"
| "is_review_task t = False"

fun saves :: "session \<times> task list \<Rightarrow> event \<Rightarrow> bool" where
  "saves (st, ts) (Answer k r) = (k < length ts \<and> is_save_task (ts ! k) \<and> succeeds r)"
| "saves cfg ev = False"

fun ends_review :: "session \<times> task list \<Rightarrow> event \<Rightarrow> bool" where
  "ends_review (st, ts) (Answer k r) = (k < length ts \<and> is_review_task (ts ! k) \<and> succeeds r)"
| "ends_review cfg ev = False"

text \<open>\<open>track\<close> runs an event and keeps, beside the configuration, whether \<open>photoOrder\<close> has
  been mutated since the last save was completed with success (or since the load).
  \<open>track_ended\<close> does the same and also forgets the mutations when the review ends.\<close>

fun track :: "(session \<times> task list) \<times> bool \<Rightarrow> event \<Rightarrow> (session \<times> task list) \<times> bool" where
  "track (cfg, mutated) ev =
     (fst (step cfg ev), if saves cfg ev then False else if mutates cfg ev then True else mutated)"

fun track_ended :: "(session \<times> task list) \<times> bool \<Rightarrow> event \<Rightarrow> (session \<times> task list) \<times> bool" where
  "track_ended (cfg, mutated) ev =
     (fst (step cfg ev),
      if saves cfg ev \<or> ends_review cfg ev then False
      else if mutates cfg ev then True else mutated)"

section \<open>Example inputs\<close>

text \<open>A page before the script has run: the script's initial globals, the loading
  indicator shown, the save control disabled and the other controls enabled.\<close>

definition initial_session :: session where
  "initial_session =
     \<lparr>photoOrder = JArr [], originalOrder = [], uid = None, reviewToken = None,
      hasUnsavedChanges = False,
      orderUidText = [], photoCount = 0, loadingShown = True, galleryShown = False,
      actionBarHidden = False, instructionsHidden = False, errorTitle = None,
      errorDetail = None, bottomActionsShown = False, sortableActive = False,
      unloadGuard = False, saveOrderBtnDisabled = True, saveStatus = NoStatus,
      approveBtnDisabled = False, approveBtnText = ''Approve & Send'',
      rejectBtnDisabled = False, rejectBtnText = ''Reject'', bottomBtnsDisabled = False,
      rejectModalShown = False, rejectReason = [], confirmModal = None\<rparr>"

text \<open>A comparison of strings by code units, standing in for \<open>localeCompare\<close> in the
  examples: negative, zero or positive.\<close>

fun codeUnitCompare :: "jsstring \<Rightarrow> jsstring \<Rightarrow> int" where
  "codeUnitCompare [] [] = 0"
| "codeUnitCompare [] (y # ys) = - 1"
| "codeUnitCompare (x # xs) [] = 1"
| "codeUnitCompare (x # xs) (y # ys) =
     (if x < y then - 1 else if y < x then 1 else codeUnitCompare xs ys)"

text \<open>The manifest of the end-to-end scenario, the session it loads for an order with no
  custom order, and that session after the second photo has been dragged to the front.\<close>

definition example_manifest :: jsval where
  "example_manifest =
     JArr [JObj [(ascii ''final_key'', JStr (ascii ''b/02-1.jpg''))],
           JObj [(ascii ''final_key'', JStr (ascii ''a/01-1.jpg''))],
           JObj [(ascii ''final_key'', JStr (ascii ''x/y.ready''))]]"

definition example_loaded :: session where
  "example_loaded =
     fst (onDOMContentLoaded codeUnitCompare initial_session
            (Some (ascii ''u1'')) (Some (ascii ''t1''))
            (Response 404 None) (Response 200 (Some example_manifest)))"

definition example_dirty :: session where
  "example_dirty = fst (onEnd example_loaded 1 0)"

text \<open>The dragged session with an approve call waiting, the same with a save call
  waiting, and the request that save has issued.\<close>

definition example_approving :: session where
  "example_approving = example_dirty\<lparr>approveBtnDisabled := True, approveBtnText := ''Approving...''\<rparr>"

definition example_saving :: session where
  "example_saving = example_dirty\<lparr>saveOrderBtnDisabled := True, saveStatus := Saving\<rparr>"

definition example_save_request :: effect where
  "example_save_request =
     Fetch (Post SAVE_ORDER_LAMBDA_URL
       (JObj [(ascii ''uid'', JStr (ascii ''u1'')),
              (ascii ''review_token'', JStr (ascii ''t1'')),
              (ascii ''photo_order'', JArr [JStr (ascii ''b/02-1.jpg''), JStr (ascii ''a/01-1.jpg'')])]))"

section \<open>Properties of the drag handler\<close>

lemma take1_drop: "i < length xs \<Longrightarrow> take (Suc 0) (drop i xs) = [xs ! i]"
  by (simp add: take_Suc_conv_app_nth)

lemma onEnd_in_range:
  assumes "photoOrder st = JArr xs" and "i < length xs" and "i \<noteq> j"
  shows "onEnd st i j =
    (markAsChanged (st\<lparr>photoOrder :=
        JArr (take (min j (length xs - 1)) (take i xs @ drop (Suc i) xs) @ [xs ! i] @
              drop (min j (length xs - 1)) (take i xs @ drop (Suc i) xs))\<rparr>), [])"
proof -
  have rem: "take (Suc 0) (drop i xs) = [xs ! i]"
    using assms(2) by (rule take1_drop)
  have len: "min i (length xs) = i" "min (Suc 0) (length xs - i) = Suc 0"
    using assms(2) by simp_all
  have l2: "min i (length xs) + (length xs - Suc i) = length xs - 1"
    using assms(2) by simp
  show ?thesis
    using assms(1,3) rem len l2
    by (simp add: onEnd_def splice_def Let_def)
qed

text \<open>
  C1. A completed drag from index \<open>i\<close> to index \<open>j\<close>, both in range. When \<open>i \<noteq> j\<close>, the
  new \<open>photoOrder\<close> has the moved element at \<open>j\<close>, and deleting position \<open>j\<close> from it gives
  the old list with position \<open>i\<close> deleted (so every other element keeps its relative
  order); it has the same length and the same elements, and \<open>hasUnsavedChanges\<close> is true.
  When \<open>i = j\<close> the handler changes nothing: \<open>photoOrder\<close>, the flag and the rest of the
  state are as before.
\<close>

theorem drag_move_reinserts:
  assumes "photoOrder st = JArr xs" and "i < length xs" and "j < length xs"
  shows "(i \<noteq> j \<longrightarrow>
           (\<exists>zs. photoOrder (fst (onEnd st i j)) = JArr zs
              \<and> length zs = length xs
              \<and> zs ! j = xs ! i
              \<and> take j zs @ drop (Suc j) zs = take i xs @ drop (Suc i) xs
              \<and> mset zs = mset xs)
           \<and> hasUnsavedChanges (fst (onEnd st i j)))
       \<and> (i = j \<longrightarrow> onEnd st i j = (st, []))"
proof (cases "i = j")
  case True
  then show ?thesis by (simp add: onEnd_def)
next
  case False
  define ys where "ys = take i xs @ drop (Suc i) xs"
  define zs where "zs = take j ys @ [xs ! i] @ drop j ys"
  have lys: "length ys = length xs - 1"
    using assms(2) by (simp add: ys_def)
  have jle: "j \<le> length ys"
    using assms(3) lys by simp
  have mj: "min j (length xs - 1) = j"
    using assms(3) by simp
  have run: "onEnd st i j = (markAsChanged (st\<lparr>photoOrder := JArr zs\<rparr>), [])"
    using onEnd_in_range [OF assms(1) assms(2) False] mj by (simp add: zs_def ys_def)
  have lzs: "length zs = length xs"
    using jle lys assms(2) by (simp add: zs_def)
  have at: "zs ! j = xs ! i"
    using jle by (simp add: zs_def nth_append)
  have del: "take j zs @ drop (Suc j) zs = ys"
    using jle by (simp add: zs_def)
  have "xs = take i xs @ xs ! i # drop (Suc i) xs"
    using assms(2) by (rule id_take_nth_drop)
  then have "mset xs = mset (take i xs @ xs ! i # drop (Suc i) xs)"
    by simp
  then have msx: "mset xs = mset ys + {#xs ! i#}"
    by (simp add: ys_def)
  have split: "mset (take j ys) + mset (drop j ys) = mset ys"
    by (metis append_take_drop_id mset_append)
  have "mset zs = mset (take j ys) + mset (drop j ys) + {#xs ! i#}"
    by (simp add: zs_def)
  then have ms: "mset zs = mset xs"
    using msx split by simp
  have p: "photoOrder (fst (onEnd st i j)) = JArr zs"
    using run by (simp add: markAsChanged_def)
  have h: "hasUnsavedChanges (fst (onEnd st i j))"
    using run by (simp add: markAsChanged_def)
  show ?thesis
    using False p h lzs at del ms by (simp add: ys_def)
qed

theorem drag_move_reinserts_witness:
  "photoOrder (fst (onEnd (initial_session\<lparr>photoOrder :=
        JArr [JStr (ascii ''a''), JStr (ascii ''b''), JStr (ascii ''c'')]\<rparr>) 0 2))
     = JArr [JStr (ascii ''b''), JStr (ascii ''c''), JStr (ascii ''a'')]
   \<and> hasUnsavedChanges (fst (onEnd (initial_session\<lparr>photoOrder :=
        JArr [JStr (ascii ''a''), JStr (ascii ''b''), JStr (ascii ''c'')]\<rparr>) 0 2))
   \<and> onEnd (initial_session\<lparr>photoOrder :=
        JArr [JStr (ascii ''a''), JStr (ascii ''b''), JStr (ascii ''c'')]\<rparr>) 1 1
     = (initial_session\<lparr>photoOrder :=
        JArr [JStr (ascii ''a''), JStr (ascii ''b''), JStr (ascii ''c'')]\<rparr>, [])"
proof -
  let ?xs = "[JStr (ascii ''a''), JStr (ascii ''b''), JStr (ascii ''c'')]"
  let ?st = "initial_session\<lparr>photoOrder := JArr ?xs\<rparr>"
  have a: "photoOrder ?st = JArr ?xs" by simp
  from drag_move_reinserts [OF a, of 0 2] obtain zs where
    z: "photoOrder (fst (onEnd ?st 0 2)) = JArr zs" "length zs = 3"
       "zs ! 2 = JStr (ascii ''a'')" "take 2 zs @ drop 3 zs = [JStr (ascii ''b''), JStr (ascii ''c'')]"
    and h: "hasUnsavedChanges (fst (onEnd ?st 0 2))"
    by (auto simp: numeral_3_eq_3 numeral_2_eq_2)
  from z(2) obtain p q r where zs: "zs = [p, q, r]"
    by (auto simp: length_Suc_conv numeral_3_eq_3)
  have "zs = [JStr (ascii ''b''), JStr (ascii ''c''), JStr (ascii ''a'')]"
    using z(3,4) by (simp add: zs)
  moreover from drag_move_reinserts [OF a, of 1 1] have "onEnd ?st 1 1 = (?st, [])"
    by simp
  ultimately show ?thesis using z(1) h by simp
qed

section \<open>The example sessions, evaluated\<close>

lemma example_loaded_eq:
  "example_loaded =
     initial_session\<lparr>photoOrder := JArr [JStr (ascii ''a/01-1.jpg''), JStr (ascii ''b/02-1.jpg'')],
       originalOrder := [JStr (ascii ''a/01-1.jpg''), JStr (ascii ''b/02-1.jpg'')],
       uid := Some (ascii ''u1''), reviewToken := Some (ascii ''t1''),
       orderUidText := ascii ''u1'', photoCount := 2, loadingShown := False,
       galleryShown := True, sortableActive := True, unloadGuard := True\<rparr>"
  by (simp add: example_loaded_def example_manifest_def onDOMContentLoaded_def loadPhotos_def
      loadExistingOrder_def present_def ok_def showLoading_def ascii_def finish_load_def
      renderGallery_def initializeSortable_def sort_js_def by_filename_def filename_def
      endsWith_def initial_session_def template_def)

lemma example_dirty_eq:
  "example_dirty =
     example_loaded\<lparr>photoOrder := JArr [JStr (ascii ''b/02-1.jpg''), JStr (ascii ''a/01-1.jpg'')],
       hasUnsavedChanges := True, saveOrderBtnDisabled := False, saveStatus := UnsavedChanges\<rparr>"
  by (simp add: example_dirty_def example_loaded_eq onEnd_def splice_def markAsChanged_def)

section \<open>Properties of saving\<close>

lemma json_or_throw_Inr:
  "(json_or_throw res = Inr v) = (\<exists>status. res = Response status (Some v) \<and> ok status)"
  by (auto simp: json_or_throw_def Let_def split: fetch_result.splits option.splits sum.splits if_splits)

lemma succeeds_iff:
  "succeeds res = (\<exists>status v. res = Response status (Some v) \<and> ok status)"
proof -
  have "succeeds res = (\<exists>v. json_or_throw res = Inr v)"
    by (simp add: succeeds_def split: sum.splits)
  then show ?thesis by (auto simp: json_or_throw_Inr)
qed

lemma saveOrder_failure:
  assumes "json_or_throw res = Inl e"
  shows "fst (saveOrder st res) = st\<lparr>saveOrderBtnDisabled := False, saveStatus := SaveFailed\<rparr>"
  using assms by (simp add: saveOrder_def Let_def)

lemma saveOrder_success:
  assumes "json_or_throw res = Inr v" and "photoOrder st = JArr xs"
  shows "fst (saveOrder st res) =
           st\<lparr>saveOrderBtnDisabled := True, saveStatus := Saved, hasUnsavedChanges := False,
              originalOrder := xs\<rparr>"
  using assms by (simp add: saveOrder_def Let_def)

text \<open>
  C2. \<open>saveOrder\<close> is invoked with \<open>photoOrder\<close> an array. When the save call is
  answered by a 2xx response whose body parses as JSON, \<open>hasUnsavedChanges\<close> is false
  afterwards and \<open>originalOrder\<close> is a copy of \<open>photoOrder\<close>, which is unchanged. When the call
  fails (the network fails, the response is not 2xx, or the body does not parse),
  \<open>hasUnsavedChanges\<close>, \<open>photoOrder\<close> and \<open>originalOrder\<close> are unchanged, so the flag is still
  true if it was, and the save control is enabled again.
\<close>

theorem save_outcome:
  assumes "photoOrder st = JArr xs"
  shows "(ok status \<longrightarrow>
            \<not> hasUnsavedChanges (fst (saveOrder st (Response status (Some v))))
          \<and> originalOrder (fst (saveOrder st (Response status (Some v)))) = xs
          \<and> photoOrder (fst (saveOrder st (Response status (Some v)))) = JArr xs)
       \<and> (res = NetworkFailure \<or> (\<exists>status body. res = Response status body \<and> (\<not> ok status \<or> body = None)) \<longrightarrow>
            hasUnsavedChanges (fst (saveOrder st res)) = hasUnsavedChanges st
          \<and> photoOrder (fst (saveOrder st res)) = photoOrder st
          \<and> originalOrder (fst (saveOrder st res)) = originalOrder st
          \<and> \<not> saveOrderBtnDisabled (fst (saveOrder st res)))"
proof (intro conjI impI)
  assume "ok status"
  then have "json_or_throw (Response status (Some v)) = Inr v"
    by (simp add: json_or_throw_Inr)
  from saveOrder_success [OF this assms]
  show "\<not> hasUnsavedChanges (fst (saveOrder st (Response status (Some v))))"
    and "originalOrder (fst (saveOrder st (Response status (Some v)))) = xs"
    and "photoOrder (fst (saveOrder st (Response status (Some v)))) = JArr xs"
    using assms by simp_all
next
  assume f: "res = NetworkFailure \<or> (\<exists>status body. res = Response status body \<and> (\<not> ok status \<or> body = None))"
  have "\<not> (\<exists>v. json_or_throw res = Inr v)"
    using f by (auto simp: json_or_throw_Inr)
  then obtain e where "json_or_throw res = Inl e"
    by (cases "json_or_throw res") auto
  from saveOrder_failure [OF this, of st]
  show "hasUnsavedChanges (fst (saveOrder st res)) = hasUnsavedChanges st"
    and "photoOrder (fst (saveOrder st res)) = photoOrder st"
    and "originalOrder (fst (saveOrder st res)) = originalOrder st"
    and "\<not> saveOrderBtnDisabled (fst (saveOrder st res))"
    by simp_all
qed

theorem save_outcome_witness:
  "ok 200
   \<and> \<not> hasUnsavedChanges (fst (saveOrder example_dirty (Response 200 (Some (JObj [])))))
   \<and> originalOrder (fst (saveOrder example_dirty (Response 200 (Some (JObj [])))))
       = [JStr (ascii ''b/02-1.jpg''), JStr (ascii ''a/01-1.jpg'')]
   \<and> \<not> ok 500
   \<and> hasUnsavedChanges (fst (saveOrder example_dirty (Response 500 None)))
   \<and> originalOrder (fst (saveOrder example_dirty (Response 500 None)))
       = [JStr (ascii ''a/01-1.jpg''), JStr (ascii ''b/02-1.jpg'')]
   \<and> \<not> saveOrderBtnDisabled (fst (saveOrder example_dirty (Response 500 None)))"
proof -
  have a: "photoOrder example_dirty = JArr [JStr (ascii ''b/02-1.jpg''), JStr (ascii ''a/01-1.jpg'')]"
    by (simp add: example_dirty_eq)
  have o: "ok 200" "\<not> ok 500" by (simp_all add: ok_def)
  have d: "hasUnsavedChanges example_dirty"
    "originalOrder example_dirty = [JStr (ascii ''a/01-1.jpg''), JStr (ascii ''b/02-1.jpg'')]"
    by (simp_all add: example_dirty_eq example_loaded_eq)
  show ?thesis
    using save_outcome [OF a, of 200 "JObj []" "Response 500 None"] o d by simp
qed

text \<open>
  C2, where a 2xx status alone is not a success: the script parses the body inside its
  \<open>try\<close>, so a 204 response, whose body is empty and is not JSON, goes through the
  \<open>catch\<close>. After a drag, the flag stays true and \<open>originalOrder\<close> still holds the order
  from before the drag.
\<close>

theorem save_2xx_unparsed_body_counterexample:
  "ok 204
   \<and> hasUnsavedChanges (fst (saveOrder example_dirty (Response 204 None)))
   \<and> photoOrder (fst (saveOrder example_dirty (Response 204 None)))
       = JArr [JStr (ascii ''b/02-1.jpg''), JStr (ascii ''a/01-1.jpg'')]
   \<and> originalOrder (fst (saveOrder example_dirty (Response 204 None)))
       = [JStr (ascii ''a/01-1.jpg''), JStr (ascii ''b/02-1.jpg'')]"
  by (simp add: ok_def saveOrder_def json_or_throw_def example_dirty_eq example_loaded_eq)

section \<open>Properties of resolution from the manifest\<close>

lemma manifest_keys_selected:
  "list_all record_entry entries \<Longrightarrow> manifest_keys entries = Inr (selected_keys entries)"
proof (induction entries)
  case Nil
  then show ?case by (simp add: selected_keys_def)
next
  case (Cons entry rest)
  from Cons.prems have r: "record_entry entry" and "list_all record_entry rest" by simp_all
  then have ih: "manifest_keys rest = Inr (selected_keys rest)" using Cons.IH by simp
  obtain k where k: "get_prop entry (ascii ''final_key'') = Inr k" and ks: "is_string k \<or> \<not> truthy k"
    using r by (auto simp: record_entry_def split: sum.splits)
  show ?case
  proof (cases k)
    case (JStr s)
    then show ?thesis using k ih by (simp add: selected_keys_def)
  qed (use k ks ih in \<open>simp_all add: selected_keys_def\<close>)
qed

lemma mset_insert_sorted: "mset (insert_sorted cmp x ys) = add_mset x (mset ys)"
  by (induction ys) simp_all

lemma mset_sort_js: "mset (sort_js cmp xs) = mset xs"
  by (induction xs) (simp_all add: sort_js_def mset_insert_sorted)

lemma set_insert_sorted: "set (insert_sorted cmp x ys) = insert x (set ys)"
  by (induction ys) auto

lemma sorted_insert_sorted:
  assumes total: "\<forall>a b. cmp a b \<le> 0 \<or> cmp b a \<le> 0"
    and trans: "\<forall>a b c. cmp a b \<le> 0 \<longrightarrow> cmp b c \<le> 0 \<longrightarrow> cmp a c \<le> 0"
  shows "sorted_wrt (\<lambda>a b. cmp a b \<le> 0) ys \<Longrightarrow> sorted_wrt (\<lambda>a b. cmp a b \<le> 0) (insert_sorted cmp x ys)"
proof (induction ys)
  case Nil
  then show ?case by simp
next
  case (Cons y ys)
  show ?case
  proof (cases "cmp x y \<le> 0")
    case True
    then have "\<forall>z\<in>set ys. cmp x z \<le> 0"
      using Cons.prems trans by auto
    then show ?thesis using True Cons.prems by simp
  next
    case False
    then have "cmp y x \<le> 0" using total by blast
    then show ?thesis
      using False Cons by (auto simp: set_insert_sorted)
  qed
qed

lemma sorted_sort_js:
  assumes "\<forall>a b. cmp a b \<le> 0 \<or> cmp b a \<le> 0"
    and "\<forall>a b c. cmp a b \<le> 0 \<longrightarrow> cmp b c \<le> 0 \<longrightarrow> cmp a c \<le> 0"
  shows "sorted_wrt (\<lambda>a b. cmp a b \<le> 0) (sort_js cmp xs)"
proof (induction xs)
  case Nil
  then show ?case by (simp add: sort_js_def)
next
  case (Cons x xs)
  then show ?case
    using sorted_insert_sorted [OF assms] by (simp add: sort_js_def)
qed

lemma filter_insert_sorted:
  assumes trans: "\<forall>a b c. cmp a b \<le> 0 \<longrightarrow> cmp b c \<le> 0 \<longrightarrow> cmp a c \<le> 0"
  shows "filter (\<lambda>x. cmp x k \<le> 0 \<and> cmp k x \<le> 0) (insert_sorted cmp x ys) =
         filter (\<lambda>x. cmp x k \<le> 0 \<and> cmp k x \<le> 0) (x # ys)"
proof (induction ys)
  case Nil
  then show ?case by simp
next
  case (Cons y ys)
  show ?case
  proof (cases "cmp x y \<le> 0")
    case True
    then show ?thesis by simp
  next
    case False
    then have "\<not> (cmp x k \<le> 0 \<and> cmp k y \<le> 0)"
      using trans by blast
    then show ?thesis using False Cons.IH by auto
  qed
qed

lemma stable_sort_js:
  assumes "\<forall>a b c. cmp a b \<le> 0 \<longrightarrow> cmp b c \<le> 0 \<longrightarrow> cmp a c \<le> 0"
  shows "filter (\<lambda>x. cmp x k \<le> 0 \<and> cmp k x \<le> 0) (sort_js cmp xs) =
         filter (\<lambda>x. cmp x k \<le> 0 \<and> cmp k x \<le> 0) xs"
proof (induction xs)
  case Nil
  then show ?case by (simp add: sort_js_def)
next
  case (Cons x xs)
  have "sort_js cmp (x # xs) = insert_sorted cmp x (sort_js cmp xs)"
    by (simp add: sort_js_def)
  then show ?case
    using filter_insert_sorted [OF assms, of k x "sort_js cmp xs"] Cons.IH by simp
qed

lemma selected_keys_kept:
  "s \<in> set (selected_keys entries) \<Longrightarrow> s \<noteq> [] \<and> \<not> endsWith s (ascii ''.ready'')"
  by (auto simp: selected_keys_def split: sum.splits jsval.splits if_splits)

lemma finish_load_strings:
  "finish_load (st\<lparr>photoOrder := JArr (map JStr zs)\<rparr>) =
     (showLoading False
        ((if length zs > 20
          then (\<lambda>s. s\<lparr>bottomActionsShown := True\<rparr>) else (\<lambda>s. s))
         (st\<lparr>photoOrder := JArr (map JStr zs), originalOrder := map JStr zs,
             galleryShown := True, sortableActive := True,
             photoCount := length zs, saveOrderBtnDisabled := True\<rparr>)), None)"
  by (simp add: finish_load_def renderGallery_def initializeSortable_def list_all_iff Let_def)

lemma photoOrder_finish_load_strings:
  "photoOrder (fst (finish_load (st\<lparr>photoOrder := JArr (map JStr zs)\<rparr>))) = JArr (map JStr zs)"
  "snd (finish_load (st\<lparr>photoOrder := JArr (map JStr zs)\<rparr>)) = None"
  by (simp_all add: finish_load_strings showLoading_def)

lemma loadExistingOrder_showLoading:
  "loadExistingOrder (showLoading b st) res = loadExistingOrder st res"
  by (simp add: loadExistingOrder_def showLoading_def Let_def)

lemma loadPhotos_manifest:
  assumes "\<not> truthy (fst (loadExistingOrder st customRes))" and "ok status"
    and "manifest_keys entries = Inr keys"
  shows "photoOrder (fst (loadPhotos lc st customRes (Response status (Some (JArr entries)))))
           = JArr (map JStr (sort_js (by_filename lc) keys))"
    and "snd (snd (loadPhotos lc st customRes (Response status (Some (JArr entries))))) = None"
  using assms
  by (simp_all add: loadPhotos_def loadExistingOrder_showLoading Let_def split_beta
        photoOrder_finish_load_strings)

lemma codeUnitCompare_le:
  "(codeUnitCompare a b \<le> 0) = (a = b \<or> (a, b) \<in> lexord {(x, y). x < y})"
proof (induction a b rule: codeUnitCompare.induct)
  case (4 x xs y ys)
  then show ?case by (auto simp: not_less)
qed auto

lemma codeUnitCompare_sign: "\<forall>a b. (codeUnitCompare a b < 0) = (0 < codeUnitCompare b a)"
proof (intro allI)
  fix a b :: jsstring
  show "(codeUnitCompare a b < 0) = (0 < codeUnitCompare b a)"
    by (induction a b rule: codeUnitCompare.induct) auto
qed

lemma sign_total:
  assumes "\<forall>a b. (cmp a b < 0) = (0 < cmp b a)"
  shows "\<forall>a b. cmp a b \<le> (0::int) \<or> cmp b a \<le> 0"
proof (intro allI)
  fix a b
  show "cmp a b \<le> 0 \<or> cmp b a \<le> 0"
  proof (cases "cmp a b \<le> 0")
    case False
    then have "0 < cmp a b" by simp
    then have "cmp b a < 0" using assms by simp
    then show ?thesis by simp
  qed simp
qed

lemma sign_equiv:
  assumes "\<forall>a b. (cmp a b < 0) = (0 < cmp b a)"
  shows "(cmp x k \<le> (0::int) \<and> cmp k x \<le> 0) = (cmp x k = 0)"
proof
  assume a: "cmp x k \<le> 0 \<and> cmp k x \<le> 0"
  have "\<not> cmp x k < 0"
  proof
    assume "cmp x k < 0"
    then have "0 < cmp k x" using assms by simp
    then show False using a by simp
  qed
  then show "cmp x k = 0" using a by simp
next
  assume e: "cmp x k = 0"
  have "\<not> 0 < cmp k x"
  proof
    assume "0 < cmp k x"
    then have "cmp x k < 0" using assms by simp
    then show False using e by simp
  qed
  then show "cmp x k \<le> 0 \<and> cmp k x \<le> 0" using e by simp
qed

lemma codeUnitCompare_trans:
  "\<forall>a b c. codeUnitCompare a b \<le> 0 \<longrightarrow> codeUnitCompare b c \<le> 0 \<longrightarrow> codeUnitCompare a c \<le> 0"
proof (intro allI impI)
  fix a b c :: jsstring
  assume "codeUnitCompare a b \<le> 0" and "codeUnitCompare b c \<le> 0"
  moreover have "trans {(x :: jschar, y). x < y}"
    by (auto simp: trans_def)
  ultimately show "codeUnitCompare a c \<le> 0"
    unfolding codeUnitCompare_le by (auto dest: lexord_trans)
qed

lemma filename_no_slash: "of_char CHR ''/'' \<notin> set (filename s)"
proof
  assume "of_char CHR ''/'' \<in> set (filename s)"
  then have "of_char CHR ''/'' \<in> set (takeWhile (\<lambda>c. c \<noteq> of_char CHR ''/'') (rev s))"
    by (simp add: filename_def)
  then show False by (auto dest: set_takeWhileD)
qed

lemma filename_after_slash:
  "s = filename s \<or> (\<exists>p. s = p @ of_char CHR ''/'' # filename s)"
proof -
  let ?P = "\<lambda>c :: jschar. c \<noteq> of_char CHR ''/''"
  show ?thesis
  proof (cases "dropWhile ?P (rev s)")
    case Nil
    then have "\<forall>x \<in> set (rev s). ?P x"
      by (simp only: dropWhile_eq_Nil_conv)
    then have "takeWhile ?P (rev s) = rev s"
      by (simp only: takeWhile_eq_all_conv)
    then have "s = filename s"
      by (simp only: filename_def rev_rev_ident)
    then show ?thesis by (rule disjI1)
  next
    case (Cons c cs)
    have "\<not> ?P (hd (dropWhile ?P (rev s)))"
      by (rule hd_dropWhile) (simp only: Cons list.distinct not_False_eq_True)
    then have c: "c = of_char CHR ''/''"
      by (simp only: Cons list.sel not_not)
    have "takeWhile ?P (rev s) @ dropWhile ?P (rev s) = rev s"
      by (rule takeWhile_dropWhile_id)
    then have "rev (takeWhile ?P (rev s) @ c # cs) = rev (rev s)"
      by (simp only: Cons)
    then have "s = rev cs @ c # filename s"
      by (simp only: rev_append rev.simps rev_rev_ident filename_def append_assoc append.simps)
    then show ?thesis using c by blast
  qed
qed

lemma endsWith_iff: "endsWith s suffix = (\<exists>p. s = p @ suffix)"
proof
  assume "endsWith s suffix"
  then have "s = take (length s - length suffix) s @ suffix"
    by (metis append_take_drop_id endsWith_def)
  then show "\<exists>p. s = p @ suffix" by blast
next
  assume "\<exists>p. s = p @ suffix"
  then show "endsWith s suffix" by (auto simp: endsWith_def)
qed

text \<open>
  C3. No custom order exists, the manifest is fetched with success and is a list of
  records, and \<open>localeCompare\<close> is a consistent comparison (the sign of \<open>localeCompare a b\<close>
  is the opposite of the sign of \<open>localeCompare b a\<close>, and the order is transitive). Then
  \<open>loadPhotos\<close> throws nothing and \<open>photoOrder\<close> holds exactly the selected keys (the
  \<open>final_key\<close> of each entry whose key is present, not empty and does not end with
  \<open>.ready\<close>, with their multiplicities), ascending by \<open>localeCompare\<close> of the file names,
  and stable: keys whose file names compare equal keep their manifest order. In
  particular no key in it is empty or ends with \<open>.ready\<close>. The file name of a key is
  the part after its last slash: it holds no slash, and it is the whole key or what
  follows a slash in it. A key ends with a suffix when it is some string followed by the
  suffix.
\<close>

theorem manifest_order_resolution:
  assumes sign: "\<forall>a b. (localeCompare a b < 0) = (0 < localeCompare b a)"
    and trans: "\<forall>a b c. localeCompare a b \<le> 0 \<longrightarrow> localeCompare b c \<le> 0 \<longrightarrow> localeCompare a c \<le> 0"
    and nocustom: "\<not> truthy (fst (loadExistingOrder st customRes))"
    and status: "ok status"
    and records: "list_all record_entry entries"
  shows "(\<exists>zs.
      photoOrder (fst (loadPhotos localeCompare st customRes (Response status (Some (JArr entries)))))
        = JArr (map JStr zs)
    \<and> snd (snd (loadPhotos localeCompare st customRes (Response status (Some (JArr entries))))) = None
    \<and> mset zs = mset (selected_keys entries)
    \<and> sorted_wrt (\<lambda>a b. localeCompare (filename a) (filename b) \<le> 0) zs
    \<and> (\<forall>k. filter (\<lambda>x. localeCompare (filename x) (filename k) = 0) zs
            = filter (\<lambda>x. localeCompare (filename x) (filename k) = 0) (selected_keys entries))
    \<and> (\<forall>s \<in> set zs. s \<noteq> [] \<and> \<not> endsWith s (ascii ''.ready'')))
   \<and> (\<forall>s. of_char CHR ''/'' \<notin> set (filename s)
          \<and> (s = filename s \<or> (\<exists>p. s = p @ of_char CHR ''/'' # filename s)))
   \<and> (\<forall>s suffix. endsWith s suffix = (\<exists>p. s = p @ suffix))"
proof -
  define cmp where "cmp = by_filename localeCompare"
  define zs where "zs = sort_js cmp (selected_keys entries)"
  have cmp: "\<And>a b. cmp a b = localeCompare (filename a) (filename b)"
    by (simp add: cmp_def by_filename_def)
  have sg: "\<forall>a b. (cmp a b < 0) = (0 < cmp b a)"
    using sign by (simp add: cmp)
  have t1: "\<forall>a b. cmp a b \<le> 0 \<or> cmp b a \<le> 0"
    using sg by (rule sign_total)
  have t2: "\<forall>a b c. cmp a b \<le> 0 \<longrightarrow> cmp b c \<le> 0 \<longrightarrow> cmp a c \<le> 0"
    using trans unfolding cmp by blast
  have keys: "manifest_keys entries = Inr (selected_keys entries)"
    using records by (rule manifest_keys_selected)
  have p: "photoOrder (fst (loadPhotos localeCompare st customRes (Response status (Some (JArr entries)))))
        = JArr (map JStr zs)"
    using loadPhotos_manifest(1) [OF nocustom status keys] by (simp add: zs_def cmp_def)
  have n: "snd (snd (loadPhotos localeCompare st customRes (Response status (Some (JArr entries))))) = None"
    using nocustom status keys by (rule loadPhotos_manifest(2))
  have m: "mset zs = mset (selected_keys entries)"
    by (simp add: zs_def mset_sort_js)
  have "sorted_wrt (\<lambda>a b. cmp a b \<le> 0) zs"
    unfolding zs_def using t1 t2 by (rule sorted_sort_js)
  then have s: "sorted_wrt (\<lambda>a b. localeCompare (filename a) (filename b) \<le> 0) zs"
    by (simp add: cmp)
  have "\<And>k. filter (\<lambda>x. cmp x k \<le> 0 \<and> cmp k x \<le> 0) zs
            = filter (\<lambda>x. cmp x k \<le> 0 \<and> cmp k x \<le> 0) (selected_keys entries)"
    unfolding zs_def using t2 by (rule stable_sort_js)
  then have "\<And>k. filter (\<lambda>x. cmp x k = 0) zs = filter (\<lambda>x. cmp x k = 0) (selected_keys entries)"
    by (simp only: sign_equiv [OF sg])
  then have f: "\<forall>k. filter (\<lambda>x. localeCompare (filename x) (filename k) = 0) zs
            = filter (\<lambda>x. localeCompare (filename x) (filename k) = 0) (selected_keys entries)"
    by (simp add: cmp)
  have "set zs = set (selected_keys entries)"
    using m by (rule mset_eq_setD)
  then have e: "\<forall>s \<in> set zs. s \<noteq> [] \<and> \<not> endsWith s (ascii ''.ready'')"
    using selected_keys_kept by blast
  have ex: "\<exists>zs.
      photoOrder (fst (loadPhotos localeCompare st customRes (Response status (Some (JArr entries)))))
        = JArr (map JStr zs)
    \<and> snd (snd (loadPhotos localeCompare st customRes (Response status (Some (JArr entries))))) = None
    \<and> mset zs = mset (selected_keys entries)
    \<and> sorted_wrt (\<lambda>a b. localeCompare (filename a) (filename b) \<le> 0) zs
    \<and> (\<forall>k. filter (\<lambda>x. localeCompare (filename x) (filename k) = 0) zs
            = filter (\<lambda>x. localeCompare (filename x) (filename k) = 0) (selected_keys entries))
    \<and> (\<forall>s \<in> set zs. s \<noteq> [] \<and> \<not> endsWith s (ascii ''.ready''))"
    using p n m s f e by blast
  have fn: "\<forall>s. of_char CHR ''/'' \<notin> set (filename s)
          \<and> (s = filename s \<or> (\<exists>p. s = p @ of_char CHR ''/'' # filename s))"
    using filename_no_slash filename_after_slash by blast
  have ew: "\<forall>s suffix :: jsstring. endsWith s suffix = (\<exists>p. s = p @ suffix)"
    using endsWith_iff by blast
  from ex fn ew show ?thesis by (intro conjI)
qed

theorem manifest_order_resolution_witness:
  "photoOrder (fst (loadPhotos codeUnitCompare initial_session (Response 404 None)
        (Response 200 (Some (JArr
          [JObj [(ascii ''final_key'', JStr (ascii ''b/02.jpg''))],
           JObj [(ascii ''final_key'', JStr (ascii ''b/01.jpg''))],
           JObj [(ascii ''final_key'', JStr (ascii ''a/01.jpg''))],
           JObj [(ascii ''final_key'', JStr (ascii ''x/y.ready''))]])))))
     = JArr [JStr (ascii ''b/01.jpg''), JStr (ascii ''a/01.jpg''), JStr (ascii ''b/02.jpg'')]
   \<and> selected_keys
          [JObj [(ascii ''final_key'', JStr (ascii ''b/02.jpg''))],
           JObj [(ascii ''final_key'', JStr (ascii ''b/01.jpg''))],
           JObj [(ascii ''final_key'', JStr (ascii ''a/01.jpg''))],
           JObj [(ascii ''final_key'', JStr (ascii ''x/y.ready''))]]
     = [ascii ''b/02.jpg'', ascii ''b/01.jpg'', ascii ''a/01.jpg'']
   \<and> sorted_wrt (\<lambda>a b. codeUnitCompare (filename a) (filename b) \<le> 0)
        [ascii ''b/01.jpg'', ascii ''a/01.jpg'', ascii ''b/02.jpg'']
   \<and> filename (ascii ''b/01.jpg'') = ascii ''01.jpg''
   \<and> codeUnitCompare (ascii ''b/01.jpg'') (ascii ''a/01.jpg'') = 1"
proof -
  let ?entries = "[JObj [(ascii ''final_key'', JStr (ascii ''b/02.jpg''))],
           JObj [(ascii ''final_key'', JStr (ascii ''b/01.jpg''))],
           JObj [(ascii ''final_key'', JStr (ascii ''a/01.jpg''))],
           JObj [(ascii ''final_key'', JStr (ascii ''x/y.ready''))]]"
  have nc: "\<not> truthy (fst (loadExistingOrder initial_session (Response 404 None)))"
    by (simp add: loadExistingOrder_def ok_def)
  have st: "ok 200" by (simp add: ok_def)
  have rec: "list_all record_entry ?entries"
    by (simp add: record_entry_def ascii_def)
  have sel: "selected_keys ?entries = [ascii ''b/02.jpg'', ascii ''b/01.jpg'', ascii ''a/01.jpg'']"
    by (simp add: selected_keys_def endsWith_def ascii_def)
  from manifest_order_resolution [OF codeUnitCompare_sign codeUnitCompare_trans nc st rec]
  obtain zs where
    p: "photoOrder (fst (loadPhotos codeUnitCompare initial_session (Response 404 None)
          (Response 200 (Some (JArr ?entries))))) = JArr (map JStr zs)"
    and m: "mset zs = mset (selected_keys ?entries)"
    and s: "sorted_wrt (\<lambda>a b. codeUnitCompare (filename a) (filename b) \<le> 0) zs"
    by blast
  have ev: "photoOrder (fst (loadPhotos codeUnitCompare initial_session (Response 404 None)
          (Response 200 (Some (JArr ?entries)))))
        = JArr (map JStr [ascii ''b/01.jpg'', ascii ''a/01.jpg'', ascii ''b/02.jpg''])"
    by (simp add: loadPhotos_def loadExistingOrder_def ok_def showLoading_def ascii_def
        finish_load_def renderGallery_def initializeSortable_def sort_js_def by_filename_def
        filename_def endsWith_def initial_session_def template_def)
  have "map JStr zs = map JStr [ascii ''b/01.jpg'', ascii ''a/01.jpg'', ascii ''b/02.jpg'']"
    using p ev by simp
  then have zs: "zs = [ascii ''b/01.jpg'', ascii ''a/01.jpg'', ascii ''b/02.jpg'']"
    by (simp add: inj_on_def map_eq_Cons_conv)
  have fn: "filename (ascii ''b/01.jpg'') = ascii ''01.jpg''"
    by (simp add: filename_def ascii_def)
  have cu: "codeUnitCompare (ascii ''b/01.jpg'') (ascii ''a/01.jpg'') = 1"
    by (simp add: ascii_def)
  show ?thesis
    using ev s sel fn cu unfolding zs by simp
qed

section \<open>Properties of resolution from a custom order\<close>






lemma uid_showLoading: "uid (showLoading b st) = uid st"
  by (simp add: showLoading_def Let_def)

lemma loadPhotos_requests_fallback:
  assumes "\<not> truthy (fst (loadExistingOrder st res))"
  shows "fst (snd (loadPhotos lc st res manifestRes))
           = snd (loadExistingOrder st res)
             @ [Fetch (Get (S3_BASE_URL @ ascii ''/metadata/'' @ template (uid st) @ ascii ''/final_filenames.json''))]"
  using assms
  by (simp add: loadPhotos_def loadExistingOrder_showLoading uid_showLoading Let_def split_beta
        split: fetch_result.splits option.splits jsval.splits sum.splits)





text \<open>
  C5. When the custom-order read fails (the network fails, the response is
  not 2xx, or the body does not parse), \<open>loadExistingOrder\<close> returns \<open>null\<close>, and
  \<open>loadPhotos\<close> goes on to fetch the manifest; its whole result (state, requests, what is
  thrown) is the one it has when the read succeeds with a document that holds no order,
  so nothing of the failure reaches the operator.
\<close>

theorem custom_order_read_failure_falls_back:
  assumes "res = NetworkFailure \<or> (\<exists>status body. res = Response status body \<and> (\<not> ok status \<or> body = None))"
  shows "fst (loadExistingOrder st res) = JNull
       \<and> fst (snd (loadPhotos localeCompare st res manifestRes))
           = [Fetch (Get (S3_BASE_URL @ ascii ''/metadata/'' @ template (uid st) @ ascii ''/custom_order.json'')),
              Fetch (Get (S3_BASE_URL @ ascii ''/metadata/'' @ template (uid st) @ ascii ''/final_filenames.json''))]
       \<and> loadPhotos localeCompare st res manifestRes
           = loadPhotos localeCompare st (Response 200 (Some (JObj []))) manifestRes"
proof -
  have n: "fst (loadExistingOrder st res) = JNull"
    using assms by (auto simp: loadExistingOrder_def Let_def)
  have e: "fst (loadExistingOrder st (Response 200 (Some (JObj [])))) = JUndefined"
    by (simp add: loadExistingOrder_def ok_def)
  have s: "snd (loadExistingOrder st res)
             = [Fetch (Get (S3_BASE_URL @ ascii ''/metadata/'' @ template (uid st) @ ascii ''/custom_order.json''))]"
    "snd (loadExistingOrder st (Response 200 (Some (JObj []))))
             = [Fetch (Get (S3_BASE_URL @ ascii ''/metadata/'' @ template (uid st) @ ascii ''/custom_order.json''))]"
    by (simp_all add: loadExistingOrder_def)
  have eq: "loadPhotos localeCompare st res manifestRes
           = loadPhotos localeCompare st (Response 200 (Some (JObj []))) manifestRes"
    using n e s by (simp add: loadPhotos_def loadExistingOrder_showLoading Let_def split_beta)
  have "fst (snd (loadPhotos localeCompare st res manifestRes))
           = [Fetch (Get (S3_BASE_URL @ ascii ''/metadata/'' @ template (uid st) @ ascii ''/custom_order.json'')),
              Fetch (Get (S3_BASE_URL @ ascii ''/metadata/'' @ template (uid st) @ ascii ''/final_filenames.json''))]"
    using loadPhotos_requests_fallback [of st res localeCompare manifestRes] n s(1) by simp
  then show ?thesis using n eq by simp
qed

theorem custom_order_read_failure_falls_back_witness:
  "\<not> ok 404
   \<and> fst (loadExistingOrder initial_session (Response 404 None)) = JNull
   \<and> fst (snd (loadPhotos codeUnitCompare initial_session (Response 404 None) (Response 200 (Some example_manifest))))
       = [Fetch (Get (S3_BASE_URL @ ascii ''/metadata/'' @ template (uid initial_session) @ ascii ''/custom_order.json'')),
          Fetch (Get (S3_BASE_URL @ ascii ''/metadata/'' @ template (uid initial_session) @ ascii ''/final_filenames.json''))]
   \<and> loadPhotos codeUnitCompare initial_session (Response 404 None) (Response 200 (Some example_manifest))
       = loadPhotos codeUnitCompare initial_session (Response 200 (Some (JObj []))) (Response 200 (Some example_manifest))"
proof -
  have o: "\<not> ok 404" by (simp add: ok_def)
  then have "Response 404 None = NetworkFailure
      \<or> (\<exists>status body. Response 404 None = Response status body \<and> (\<not> ok status \<or> body = None))"
    by simp
  from custom_order_read_failure_falls_back
    [OF this, of initial_session codeUnitCompare "Response 200 (Some example_manifest)"]
  show ?thesis using o by (intro conjI) blast+
qed

text \<open>
  C5, where a status other than 200 is not always a failure: the script tests
  \<open>response.ok\<close>, which holds for every 2xx status. A 206 response that carries an order
  is used as the custom order, and the manifest is not fetched.
\<close>

theorem custom_order_non200_counterexample:
  "ok 206
   \<and> fst (loadExistingOrder (initial_session\<lparr>uid := Some (ascii ''u1'')\<rparr>)
        (Response 206 (Some (JObj [(ascii ''order'', JArr [JStr (ascii ''b/02-1.jpg'')])]))))
     = JArr [JStr (ascii ''b/02-1.jpg'')]
   \<and> photoOrder (fst (onDOMContentLoaded codeUnitCompare initial_session
        (Some (ascii ''u1'')) (Some (ascii ''t1''))
        (Response 206 (Some (JObj [(ascii ''order'', JArr [JStr (ascii ''b/02-1.jpg'')])])))
        (Response 200 (Some example_manifest))))
     = JArr [JStr (ascii ''b/02-1.jpg'')]
   \<and> snd (onDOMContentLoaded codeUnitCompare initial_session
        (Some (ascii ''u1'')) (Some (ascii ''t1''))
        (Response 206 (Some (JObj [(ascii ''order'', JArr [JStr (ascii ''b/02-1.jpg'')])])))
        (Response 200 (Some example_manifest)))
     = [Fetch (Get (S3_BASE_URL @ ascii ''/metadata/'' @ ascii ''u1'' @ ascii ''/custom_order.json''))]"
  by (simp add: onDOMContentLoaded_def present_def loadPhotos_def loadExistingOrder_def ok_def
        showLoading_def finish_load_def renderGallery_def initializeSortable_def
        initial_session_def template_def ascii_def)

section \<open>Properties of the bootstrap\<close>

lemma terminal_step:
  assumes "actionBarHidden st" and "\<not> bottomActionsShown st" and "\<not> rejectModalShown st"
    and "\<not> sortableActive st" and "enabled (st, []) ev"
  shows "snd (step (st, []) ev) = []
       \<and> snd (fst (step (st, []) ev)) = []
       \<and> actionBarHidden (fst (fst (step (st, []) ev)))
       \<and> \<not> bottomActionsShown (fst (fst (step (st, []) ev)))
       \<and> \<not> rejectModalShown (fst (fst (step (st, []) ev)))
       \<and> \<not> sortableActive (fst (fst (step (st, []) ev)))
       \<and> photoOrder (fst (fst (step (st, []) ev))) = photoOrder st
       \<and> hasUnsavedChanges (fst (fst (step (st, []) ev))) = hasUnsavedChanges st"
  using assms
  by (cases ev) (simp_all add: closeConfirmModal_def savedStatusTimeout_def)

lemma terminal_operate:
  assumes "actionBarHidden st" and "\<not> bottomActionsShown st" and "\<not> rejectModalShown st"
    and "\<not> sortableActive st"
  shows "snd (operate (st, []) evs) = []
       \<and> snd (fst (operate (st, []) evs)) = []
       \<and> photoOrder (fst (fst (operate (st, []) evs))) = photoOrder st
       \<and> hasUnsavedChanges (fst (fst (operate (st, []) evs))) = hasUnsavedChanges st"
  using assms
proof (induction evs arbitrary: st)
  case Nil
  then show ?case by simp
next
  case (Cons ev evs)
  show ?case
  proof (cases "enabled (st, []) ev")
    case False
    then show ?thesis using Cons.IH [OF Cons.prems] by simp
  next
    case True
    obtain st1 ts1 effs1 where s: "step (st, []) ev = ((st1, ts1), effs1)"
      by (metis surj_pair)
    from terminal_step [OF Cons.prems True] s
    have t: "effs1 = []" "ts1 = []" "actionBarHidden st1" "\<not> bottomActionsShown st1"
      "\<not> rejectModalShown st1" "\<not> sortableActive st1" "photoOrder st1 = photoOrder st"
      "hasUnsavedChanges st1 = hasUnsavedChanges st"
      by simp_all
    from Cons.IH [OF t(3) t(4) t(5) t(6)] t(1,2,7,8) True s
    show ?thesis by (simp add: split_beta)
  qed
qed

text \<open>
  C7. The page is as it is before the script has run: the bottom actions and the reject
  dialog are not displayed, the drag library is not initialised, and no call is waiting.
  When the \<open>uid\<close> or the \<open>token\<close> parameter is absent or empty, the \<open>DOMContentLoaded\<close>
  handler shows the error display with its fixed title and message and returns without
  a request, whatever the network would have answered. From there, every run of events
  has no effect at all: no request is issued (no custom-order read, manifest read, save
  or workflow call), since no control that starts a handler can be used; no call is left
  waiting, \<open>photoOrder\<close> stays as it was, and the unload guard is not registered.
\<close>

theorem missing_parameter_is_terminal:
  assumes "\<not> present uidParam \<or> \<not> present tokenParam"
    and "\<not> bottomActionsShown st" and "\<not> rejectModalShown st" and "\<not> sortableActive st"
  shows "onDOMContentLoaded localeCompare st uidParam tokenParam customRes manifestRes =
           (showError ''Invalid review link''
              (Literal ''Missing order ID or review token. Please use the link from your email.'')
              (st\<lparr>uid := uidParam, reviewToken := tokenParam,
                  orderUidText := (if present uidParam then template uidParam else ascii ''---'')\<rparr>),
            [])
       \<and> snd (operate
            (fst (onDOMContentLoaded localeCompare st uidParam tokenParam customRes manifestRes), [])
            evs) = []
       \<and> snd (fst (operate
            (fst (onDOMContentLoaded localeCompare st uidParam tokenParam customRes manifestRes), [])
            evs)) = []
       \<and> list_all (\<lambda>e. \<not> is_fetch e) (snd (operate
            (fst (onDOMContentLoaded localeCompare st uidParam tokenParam customRes manifestRes), [])
            evs))
       \<and> photoOrder (fst (fst (operate
            (fst (onDOMContentLoaded localeCompare st uidParam tokenParam customRes manifestRes), [])
            evs))) = photoOrder st
       \<and> unloadGuard (fst (onDOMContentLoaded localeCompare st uidParam tokenParam customRes manifestRes))
           = unloadGuard st"
proof -
  let ?st' = "showError ''Invalid review link''
              (Literal ''Missing order ID or review token. Please use the link from your email.'')
              (st\<lparr>uid := uidParam, reviewToken := tokenParam,
                  orderUidText := (if present uidParam then template uidParam else ascii ''---'')\<rparr>)"
  have h: "onDOMContentLoaded localeCompare st uidParam tokenParam customRes manifestRes = (?st', [])"
    using assms(1) by (auto simp: onDOMContentLoaded_def Let_def)
  have t: "actionBarHidden ?st'" "\<not> bottomActionsShown ?st'" "\<not> rejectModalShown ?st'"
    "\<not> sortableActive ?st'"
    using assms(2-4) by (simp_all add: showError_def)
  have p: "photoOrder ?st' = photoOrder st" "unloadGuard ?st' = unloadGuard st"
    by (simp_all add: showError_def)
  from terminal_operate [OF t, of evs] p
  show ?thesis by (simp add: h)
qed

lemma example_invalid_link:
  "fst (onDOMContentLoaded codeUnitCompare initial_session (Some (ascii ''u1'')) (Some [])
        (Response 200 (Some (JObj [(ascii ''order'', JArr [JStr (ascii ''b/02-1.jpg'')])])))
        (Response 200 (Some example_manifest)))
     = initial_session\<lparr>uid := Some (ascii ''u1''), reviewToken := Some [],
          orderUidText := ascii ''u1'', loadingShown := False, actionBarHidden := True,
          instructionsHidden := True, errorTitle := Some ''Invalid review link'',
          errorDetail := Some (Literal ''Missing order ID or review token. Please use the link from your email.'')\<rparr>"
  by (simp add: onDOMContentLoaded_def present_def showError_def template_def ascii_def
      initial_session_def)

theorem missing_parameter_is_terminal_witness:
  "\<not> present (Some [])
   \<and> onDOMContentLoaded codeUnitCompare initial_session (Some (ascii ''u1'')) (Some [])
        (Response 200 (Some (JObj [(ascii ''order'', JArr [JStr (ascii ''b/02-1.jpg'')])])))
        (Response 200 (Some example_manifest))
     = (initial_session\<lparr>uid := Some (ascii ''u1''), reviewToken := Some [],
          orderUidText := ascii ''u1'', loadingShown := False, actionBarHidden := True,
          instructionsHidden := True, errorTitle := Some ''Invalid review link'',
          errorDetail := Some (Literal ''Missing order ID or review token. Please use the link from your email.'')\<rparr>,
        [])
   \<and> snd (operate
        (fst (onDOMContentLoaded codeUnitCompare initial_session (Some (ascii ''u1'')) (Some [])
          (Response 200 (Some (JObj [(ascii ''order'', JArr [JStr (ascii ''b/02-1.jpg'')])])))
          (Response 200 (Some example_manifest))), [])
        [SaveOrder, ApproveOrder True, RejectOrder, TypeReason (ascii ''blurred''), SubmitRejection,
         DragEnd 1 0, Answer 0 (Response 200 (Some (JObj [])))]) = []
   \<and> \<not> enabled (fst (onDOMContentLoaded codeUnitCompare initial_session (Some (ascii ''u1'')) (Some [])
          (Response 200 (Some (JObj [(ascii ''order'', JArr [JStr (ascii ''b/02-1.jpg'')])])))
          (Response 200 (Some example_manifest))), []) (ApproveOrder True)"
proof -
  have p: "\<not> present (Some [])" "present (Some (ascii ''u1''))"
    by (simp_all add: present_def ascii_def)
  have a: "\<not> present (Some (ascii ''u1'')) \<or> \<not> present (Some [])"
    using p by simp
  have i: "\<not> bottomActionsShown initial_session" "\<not> rejectModalShown initial_session"
    "\<not> sortableActive initial_session"
    by (simp_all add: initial_session_def)
  have en: "\<not> enabled (fst (onDOMContentLoaded codeUnitCompare initial_session (Some (ascii ''u1'')) (Some [])
          (Response 200 (Some (JObj [(ascii ''order'', JArr [JStr (ascii ''b/02-1.jpg'')])])))
          (Response 200 (Some example_manifest))), []) (ApproveOrder True)"
    unfolding example_invalid_link by (simp add: initial_session_def)
  from missing_parameter_is_terminal [OF a i, of codeUnitCompare
        "Response 200 (Some (JObj [(ascii ''order'', JArr [JStr (ascii ''b/02-1.jpg'')])]))"
        "Response 200 (Some example_manifest)"
        "[SaveOrder, ApproveOrder True, RejectOrder, TypeReason (ascii ''blurred''), SubmitRejection,
         DragEnd 1 0, Answer 0 (Response 200 (Some (JObj [])))]"]
  have r: "onDOMContentLoaded codeUnitCompare initial_session (Some (ascii ''u1'')) (Some [])
        (Response 200 (Some (JObj [(ascii ''order'', JArr [JStr (ascii ''b/02-1.jpg'')])])))
        (Response 200 (Some example_manifest))
     = (showError ''Invalid review link''
              (Literal ''Missing order ID or review token. Please use the link from your email.'')
              (initial_session\<lparr>uid := Some (ascii ''u1''), reviewToken := Some [],
                  orderUidText := (if present (Some (ascii ''u1'')) then template (Some (ascii ''u1'')) else ascii ''---'')\<rparr>),
            [])"
    and o: "snd (operate
        (fst (onDOMContentLoaded codeUnitCompare initial_session (Some (ascii ''u1'')) (Some [])
          (Response 200 (Some (JObj [(ascii ''order'', JArr [JStr (ascii ''b/02-1.jpg'')])])))
          (Response 200 (Some example_manifest))), [])
        [SaveOrder, ApproveOrder True, RejectOrder, TypeReason (ascii ''blurred''), SubmitRejection,
         DragEnd 1 0, Answer 0 (Response 200 (Some (JObj [])))]) = []"
    by blast+
  have r': "onDOMContentLoaded codeUnitCompare initial_session (Some (ascii ''u1'')) (Some [])
        (Response 200 (Some (JObj [(ascii ''order'', JArr [JStr (ascii ''b/02-1.jpg'')])])))
        (Response 200 (Some example_manifest))
     = (initial_session\<lparr>uid := Some (ascii ''u1''), reviewToken := Some [],
          orderUidText := ascii ''u1'', loadingShown := False, actionBarHidden := True,
          instructionsHidden := True, errorTitle := Some ''Invalid review link'',
          errorDetail := Some (Literal ''Missing order ID or review token. Please use the link from your email.'')\<rparr>,
        [])"
    using r p by (simp add: showError_def template_def initial_session_def)
  show ?thesis
    using p(1) r' o en by (intro conjI)
qed

section \<open>Properties of rejection\<close>

lemma dropWhile_all_Nil: "(\<forall>x \<in> set (dropWhile P s). P x) = (\<forall>x \<in> set s. P x)"
  by (induction s) auto

lemma trim_empty: "(trim s = []) = (\<forall>c \<in> set s. is_whitespace c)"
  by (simp add: trim_def dropWhile_eq_Nil_conv dropWhile_all_Nil)

text \<open>
  C8. When the reason typed into the reject dialog is empty or holds white space only,
  \<open>submitRejection\<close> leaves the whole session state as it is (globals, controls and the
  dialog) and issues no request: the only effect is the alert that asks for a reason.
\<close>

theorem blank_rejection_is_refused:
  assumes "\<forall>c \<in> set (rejectReason st). is_whitespace c"
  shows "submitRejection st res = (st, [Alert ''Please provide a reason for rejection.'' None])"
  using assms by (simp add: submitRejection_def trim_empty [symmetric])

theorem blank_rejection_is_refused_witness:
  "list_all is_whitespace (rejectReason (example_dirty\<lparr>rejectModalShown := True, rejectReason := ascii ''  ''\<rparr>))
   \<and> submitRejection (example_dirty\<lparr>rejectModalShown := True, rejectReason := ascii ''  ''\<rparr>)
        (Response 200 (Some (JObj [])))
     = (example_dirty\<lparr>rejectModalShown := True, rejectReason := ascii ''  ''\<rparr>,
        [Alert ''Please provide a reason for rejection.'' None])"
proof -
  have w: "list_all is_whitespace
      (rejectReason (example_dirty\<lparr>rejectModalShown := True, rejectReason := ascii ''  ''\<rparr>))"
    by (simp add: ascii_def is_whitespace_def)
  then have "\<forall>c \<in> set (rejectReason (example_dirty\<lparr>rejectModalShown := True, rejectReason := ascii ''  ''\<rparr>)).
       is_whitespace c"
    by (simp only: list_all_iff)
  from blank_rejection_is_refused [OF this] w show ?thesis by blast
qed

section \<open>Properties of pause and extend\<close>

text \<open>
  C9. In the redirect variant, \<open>pauseTimer\<close> and \<open>extendTimer\<close> change nothing of the
  session state; each has one effect, the navigation to the workflow endpoint for the
  review token, with the query \<open>?minutes=\<close> and the duration for \<open>extendTimer\<close>.
\<close>

theorem pause_extend_only_navigate:
  "pauseTimer st = (st, [Navigate (API_BASE_URL @ ascii ''/pause/'' @ template (reviewToken st))])
   \<and> extendTimer st minutes
       = (st, [Navigate (API_BASE_URL @ ascii ''/extend/'' @ template (reviewToken st)
                 @ ascii ''?minutes='' @ decimal minutes)])
   \<and> fst (pauseTimer st) = st
   \<and> fst (extendTimer st minutes) = st"
  by (simp add: pauseTimer_def extendTimer_def)

theorem pause_extend_only_navigate_witness:
  "extendTimer example_dirty 30
     = (example_dirty,
        [Navigate (ascii ''https://w8i78lu05m.execute-api.us-east-2.amazonaws.com/prod/extend/t1?minutes=30'')])
   \<and> pauseTimer example_dirty
     = (example_dirty,
        [Navigate (ascii ''https://w8i78lu05m.execute-api.us-east-2.amazonaws.com/prod/pause/t1'')])"
proof -
  have t: "template (reviewToken example_dirty) = ascii ''t1''"
    by (simp add: example_dirty_eq example_loaded_eq template_def)
  have d: "decimal 30 = ascii ''30''"
    by (simp add: ascii_def)
  show ?thesis
    using pause_extend_only_navigate [of example_dirty 30]
    by (simp add: t d API_BASE_URL_def ascii_def)
qed

section \<open>The handlers and their halves\<close>

text \<open>Each handler run to its end is its first half followed at once by the rest.\<close>

lemma saveOrder_split:
  "saveOrder st r =
     (let (s1, effs1) = saveOrder_begin st; (s2, effs2) = saveOrder_resume s1 r
      in (s2, effs1 @ effs2))"
  by (simp add: saveOrder_def saveOrder_begin_def saveOrder_resume_def Let_def
      split: sum.splits)

lemma approveOrder_split:
  "approveOrder st proceed sr ar =
     (let ((s1, effs1), t) = approveOrder_begin st proceed;
          ((s2, effs2), ts) = (case t of
                                 ApproveSaveTask \<Rightarrow> resume s1 ApproveSaveTask sr
                               | _ \<Rightarrow> ((s1, []), [ApproveTask]));
          (s3, effs3) = approveOrder_resume s2 ar
      in (s3, effs1 @ effs2 @ effs3))"
  by (simp add: approveOrder_def approveOrder_begin_def approveOrder_post_def approveOrder_resume_def
      saveOrder_split Let_def split_beta split: sum.splits)

lemma submitRejection_split:
  "submitRejection st r =
     (let ((s1, effs1), t) = submitRejection_begin st
      in case t of
           None \<Rightarrow> (s1, effs1)
         | Some w \<Rightarrow> (let ((s2, effs2), ts) = resume s1 w r in (s2, effs1 @ effs2)))"
  by (simp add: submitRejection_def submitRejection_begin_def submitRejection_resume_def
      Let_def split: sum.splits)

section \<open>Properties of the dirty flag\<close>

text \<open>Once the photos have loaded, \<open>photoOrder\<close> is an array of strings, and it stays an
  array under every event: in every configuration the session can reach after a load,
  \<open>photoOrder\<close> is an array, as the statements about \<open>onEnd\<close> and \<open>saveOrder\<close> assume.\<close>

lemma finish_load_ok:
  assumes "snd (finish_load st) = None"
  shows "\<exists>xs. photoOrder (fst (finish_load st)) = JArr xs \<and> list_all is_string xs"
  using assms
  by (auto simp: finish_load_def renderGallery_def initializeSortable_def showLoading_def Let_def
      split: sum.splits jsval.splits if_splits)

lemma loadPhotos_ok_array:
  assumes "snd (snd (loadPhotos lc st customRes manifestRes)) = None"
  shows "\<exists>xs. photoOrder (fst (loadPhotos lc st customRes manifestRes)) = JArr xs \<and> list_all is_string xs"
proof (cases "truthy (fst (loadExistingOrder st customRes))")
  case True
  then show ?thesis
    using assms finish_load_ok
    by (simp add: loadPhotos_def loadExistingOrder_showLoading Let_def split_beta)
next
  case False
  then show ?thesis
    using assms finish_load_ok
    by (auto simp: loadPhotos_def loadExistingOrder_showLoading Let_def split_beta
        split: fetch_result.splits option.splits jsval.splits sum.splits if_splits)
qed

lemma photoOrder_saveOrder_begin: "photoOrder (fst (saveOrder_begin st)) = photoOrder st"
  by (simp add: saveOrder_begin_def Let_def)

lemma photoOrder_saveOrder_resume: "photoOrder (fst (saveOrder_resume st r)) = photoOrder st"
  by (simp add: saveOrder_resume_def Let_def split: sum.splits)

lemma photoOrder_approveOrder_post: "photoOrder (fst (approveOrder_post st)) = photoOrder st"
  by (simp add: approveOrder_post_def Let_def)

lemma photoOrder_resume: "photoOrder (fst (fst (resume st t r))) = photoOrder st"
  by (cases t)
     (simp_all add: split_beta Let_def photoOrder_saveOrder_resume photoOrder_approveOrder_post
        approveOrder_resume_def submitRejection_resume_def disableAllActions_def
        showConfirmation_def split: sum.splits)

lemma step_keeps_array:
  assumes "photoOrder (fst cfg) = JArr xs"
  shows "\<exists>ys. photoOrder (fst (fst (step cfg ev))) = JArr ys"
proof (cases cfg)
  case (Pair st ts)
  show ?thesis
  proof (cases ev)
    case (DragEnd i j)
    then show ?thesis
      using assms Pair by (simp add: onEnd_def markAsChanged_def Let_def split_beta)
  next
    case SaveOrder
    then show ?thesis using assms Pair by (simp add: split_beta photoOrder_saveOrder_begin)
  next
    case (ApproveOrder proceed)
    then show ?thesis
      using assms Pair
      by (simp add: split_beta approveOrder_begin_def Let_def photoOrder_saveOrder_begin
          photoOrder_approveOrder_post)
  next
    case SubmitRejection
    then show ?thesis
      using assms Pair by (simp add: split_beta submitRejection_begin_def Let_def closeRejectModal_def)
  next
    case (Answer k r)
    then show ?thesis using assms Pair by (simp add: split_beta photoOrder_resume)
  qed (use assms Pair in \<open>simp_all add: rejectOrder_def closeRejectModal_def closeConfirmModal_def
        savedStatusTimeout_def\<close>)
qed

lemma run_keeps_array:
  "photoOrder (fst cfg) = JArr xs \<Longrightarrow>
   \<exists>ys. photoOrder (fst (foldl (\<lambda>c ev. fst (step c ev)) cfg evs)) = JArr ys"
proof (induction evs arbitrary: cfg xs)
  case Nil
  then show ?case by simp
next
  case (Cons ev evs)
  from step_keeps_array [OF Cons.prems, of ev] obtain ys where
    "photoOrder (fst (fst (step cfg ev))) = JArr ys"
    by blast
  from Cons.IH [OF this] show ?case by simp
qed

lemma reachable_photoOrder_array:
  assumes "snd (snd (loadPhotos lc st0 customRes manifestRes)) = None"
  shows "\<exists>xs. photoOrder (fst (foldl (\<lambda>c ev. fst (step c ev))
                 (fst (loadPhotos lc st0 customRes manifestRes), []) evs)) = JArr xs"
proof -
  from loadPhotos_ok_array [OF assms] obtain xs where
    "photoOrder (fst (fst (loadPhotos lc st0 customRes manifestRes), [] :: task list)) = JArr xs"
    by auto
  then show ?thesis by (rule run_keeps_array)
qed

lemma flag_saveOrder_begin: "hasUnsavedChanges (fst (saveOrder_begin st)) = hasUnsavedChanges st"
  by (simp add: saveOrder_begin_def Let_def)

lemma flag_saveOrder_resume:
  "hasUnsavedChanges (fst (saveOrder_resume st r)) = (\<not> succeeds r \<and> hasUnsavedChanges st)"
  by (simp add: saveOrder_resume_def succeeds_def Let_def split: sum.splits)

lemma flag_approveOrder_post: "hasUnsavedChanges (fst (approveOrder_post st)) = hasUnsavedChanges st"
  by (simp add: approveOrder_post_def Let_def)

lemma flag_approveOrder_begin:
  "hasUnsavedChanges (fst (fst (approveOrder_begin st proceed))) = hasUnsavedChanges st"
  by (simp add: approveOrder_begin_def Let_def split_beta flag_saveOrder_begin flag_approveOrder_post)

lemma flag_approveOrder_resume:
  "hasUnsavedChanges (fst (approveOrder_resume st r)) = (\<not> succeeds r \<and> hasUnsavedChanges st)"
  by (simp add: approveOrder_resume_def succeeds_def disableAllActions_def showConfirmation_def
      split: sum.splits)

lemma flag_submitRejection_begin:
  "hasUnsavedChanges (fst (fst (submitRejection_begin st))) = hasUnsavedChanges st"
  by (simp add: submitRejection_begin_def Let_def closeRejectModal_def)

lemma flag_submitRejection_resume:
  "hasUnsavedChanges (fst (submitRejection_resume st reason r)) = (\<not> succeeds r \<and> hasUnsavedChanges st)"
  by (simp add: submitRejection_resume_def succeeds_def disableAllActions_def showConfirmation_def
      split: sum.splits)

lemma flag_resume:
  "hasUnsavedChanges (fst (fst (resume st t r))) = (\<not> succeeds r \<and> hasUnsavedChanges st)"
  by (cases t)
     (simp_all add: Let_def split_beta flag_saveOrder_resume flag_approveOrder_post
        flag_approveOrder_resume flag_submitRejection_resume)

lemma task_kind: "is_save_task t \<or> is_review_task t"
  by (cases t) simp_all

lemma flag_onEnd:
  "hasUnsavedChanges (fst (onEnd st i j)) = (mutates (st, ts) (DragEnd i j) \<or> hasUnsavedChanges st)"
  by (auto simp: onEnd_def markAsChanged_def Let_def split_beta split: jsval.splits)

lemma flag_step:
  "hasUnsavedChanges (fst (fst (step cfg ev))) =
     (mutates cfg ev \<or> (hasUnsavedChanges (fst cfg) \<and> \<not> saves cfg ev \<and> \<not> ends_review cfg ev))"
proof (cases cfg)
  case (Pair st ts)
  show ?thesis
  proof (cases ev)
    case (DragEnd i j)
    then show ?thesis using Pair flag_onEnd [of st i j ts] by (simp add: split_beta)
  next
    case SaveOrder
    then show ?thesis using Pair by (simp add: split_beta flag_saveOrder_begin)
  next
    case (ApproveOrder proceed)
    then show ?thesis using Pair by (simp add: split_beta flag_approveOrder_begin)
  next
    case SubmitRejection
    then show ?thesis using Pair by (simp add: split_beta flag_submitRejection_begin)
  next
    case (Answer k r)
    then show ?thesis
      using Pair task_kind [of "ts ! k"] by (auto simp: split_beta flag_resume)
  qed (use Pair in \<open>simp_all add: rejectOrder_def closeRejectModal_def closeConfirmModal_def
        savedStatusTimeout_def\<close>)
qed

lemma mutates_excludes: "mutates cfg ev \<Longrightarrow> \<not> saves cfg ev \<and> \<not> ends_review cfg ev"
  by (cases cfg; cases ev) simp_all

lemma track_ended_invariant:
  "(m \<longrightarrow> hasUnsavedChanges (fst cfg)) \<Longrightarrow>
   snd (foldl track_ended (cfg, m) evs)
     \<longrightarrow> hasUnsavedChanges (fst (fst (foldl track_ended (cfg, m) evs)))"
proof (induction evs arbitrary: cfg m)
  case Nil
  then show ?case by simp
next
  case (Cons ev evs)
  have "(if saves cfg ev \<or> ends_review cfg ev then False else if mutates cfg ev then True else m)
          \<longrightarrow> hasUnsavedChanges (fst (fst (step cfg ev)))"
    using Cons.prems by (auto simp: flag_step)
  from Cons.IH [OF this] show ?case by simp
qed

text \<open>
  C6. Along every run of events, with drags, clicks and answers interleaved in any order,
  \<open>hasUnsavedChanges\<close> is true whenever \<open>photoOrder\<close> has been mutated since the last save
  was completed with success or the review was ended by the successful answer to an
  approve or reject call (or since the load). The flag is cleared only by an event that
  completes a save with success or ends the review with success, and each of those
  clears it.
\<close>

theorem dirty_flag_tracks_unsaved_mutations:
  assumes "m \<longrightarrow> hasUnsavedChanges (fst cfg)"
  shows "(snd (foldl track_ended (cfg, m) evs)
            \<longrightarrow> hasUnsavedChanges (fst (fst (foldl track_ended (cfg, m) evs))))
       \<and> (hasUnsavedChanges (fst cfg) \<and> \<not> hasUnsavedChanges (fst (fst (step cfg ev)))
            \<longrightarrow> saves cfg ev \<or> ends_review cfg ev)
       \<and> (saves cfg ev \<or> ends_review cfg ev \<longrightarrow> \<not> hasUnsavedChanges (fst (fst (step cfg ev))))"
proof (intro conjI)
  show "snd (foldl track_ended (cfg, m) evs)
          \<longrightarrow> hasUnsavedChanges (fst (fst (foldl track_ended (cfg, m) evs)))"
    using assms by (rule track_ended_invariant)
  show "hasUnsavedChanges (fst cfg) \<and> \<not> hasUnsavedChanges (fst (fst (step cfg ev)))
          \<longrightarrow> saves cfg ev \<or> ends_review cfg ev"
    by (auto simp: flag_step)
  show "saves cfg ev \<or> ends_review cfg ev \<longrightarrow> \<not> hasUnsavedChanges (fst (fst (step cfg ev)))"
    using mutates_excludes [of cfg ev] by (auto simp: flag_step)
qed

lemma example_drag: "step (example_loaded, []) (DragEnd 1 0) = ((example_dirty, []), [])"
  by (simp add: example_dirty_def example_loaded_eq onEnd_def split_beta)

lemma example_drag_mutates: "mutates (example_loaded, []) (DragEnd 1 0)"
  by (simp add: example_loaded_eq)

lemma example_drag_enabled: "enabled (example_loaded, []) (DragEnd 1 0)"
  by (simp add: example_loaded_eq)

lemma example_approve_begin:
  "step (example_dirty, []) (ApproveOrder False) =
     ((example_approving, [ApproveTask]),
      [Confirm ''You have unsaved changes. Save them before approving?'',
       Fetch (Post REVIEW_GATE_LAMBDA_URL
         (JObj [(ascii ''uid'', JStr (ascii ''u1'')),
                (ascii ''review_token'', JStr (ascii ''t1'')),
                (ascii ''action'', JStr (ascii ''approve''))]))])"
  by (simp add: example_approving_def approveOrder_begin_def approveOrder_post_def json_field_def
      example_dirty_eq example_loaded_eq)

lemma example_approve_enabled: "enabled (example_dirty, []) (ApproveOrder False)"
  by (simp add: example_dirty_eq example_loaded_eq initial_session_def)

lemma example_approve_answer:
  "step (example_approving, [ApproveTask]) (Answer 0 (Response 200 (Some (JObj [])))) =
     ((example_approving\<lparr>hasUnsavedChanges := False,
          saveOrderBtnDisabled := True, rejectBtnDisabled := True,
          bottomBtnsDisabled := True, confirmModal := Some OrderApproved\<rparr>, []), [])"
  by (simp add: example_approving_def approveOrder_resume_def json_or_throw_def ok_def
      disableAllActions_def showConfirmation_def)

lemma example_save_begin:
  "step (example_dirty, []) SaveOrder = ((example_saving, [SaveTask]), [example_save_request])"
  by (simp add: example_saving_def example_save_request_def saveOrder_begin_def json_field_def
      example_dirty_eq example_loaded_eq)

lemma example_save_enabled: "enabled (example_dirty, []) SaveOrder"
  by (simp add: example_dirty_eq example_loaded_eq initial_session_def)

lemma example_save_failed:
  "step (example_saving, [SaveTask]) (Answer 0 (Response 500 None)) =
     ((example_dirty\<lparr>saveStatus := SaveFailed\<rparr>, []),
      [Alert ''Failed to save order: '' (Some (Error (ServerError 500)))])"
  by (simp add: example_saving_def saveOrder_resume_def json_or_throw_def ok_def
      example_dirty_eq)

lemma example_drag_back:
  "step (example_saving, [SaveTask]) (DragEnd 1 0) =
     ((example_loaded\<lparr>hasUnsavedChanges := True, saveStatus := UnsavedChanges,
          saveOrderBtnDisabled := False\<rparr>, [SaveTask]), [])"
  by (simp add: example_saving_def example_dirty_eq example_loaded_eq onEnd_def splice_def
      markAsChanged_def)

lemma example_drag_back_enabled: "enabled (example_saving, [SaveTask]) (DragEnd 1 0)"
  by (simp add: example_saving_def example_dirty_eq example_loaded_eq)

lemma example_late_answer:
  "step (example_loaded\<lparr>hasUnsavedChanges := True, saveStatus := UnsavedChanges,
          saveOrderBtnDisabled := False\<rparr>, [SaveTask]) (Answer 0 (Response 200 (Some (JObj [])))) =
     ((example_loaded\<lparr>saveStatus := Saved, saveOrderBtnDisabled := False\<rparr>, []), [])"
  by (simp add: saveOrder_resume_def json_or_throw_def ok_def example_loaded_eq initial_session_def)

lemma succeeds_200: "succeeds (Response 200 (Some (JObj [])))"
  by (simp add: succeeds_def json_or_throw_def ok_def)

lemma not_succeeds_500: "\<not> succeeds (Response 500 None)"
  by (simp add: succeeds_def json_or_throw_def ok_def)

lemma example_run_failed_save:
  "foldl track_ended ((example_loaded, []), False)
       [DragEnd 1 0, SaveOrder, Answer 0 (Response 500 None)]
     = ((example_dirty\<lparr>saveStatus := SaveFailed\<rparr>, []), True)"
proof -
  have t1: "track_ended ((example_loaded, []), False) (DragEnd 1 0) = ((example_dirty, []), True)"
    unfolding track_ended.simps example_drag using example_drag_mutates by simp
  have t2: "track_ended ((example_dirty, []), True) SaveOrder = ((example_saving, [SaveTask]), True)"
    unfolding track_ended.simps example_save_begin by simp
  have t3: "track_ended ((example_saving, [SaveTask]), True) (Answer 0 (Response 500 None))
              = ((example_dirty\<lparr>saveStatus := SaveFailed\<rparr>, []), True)"
    unfolding track_ended.simps example_save_failed using not_succeeds_500 by simp
  show ?thesis
    by (simp only: foldl.simps t1 t2 t3)
qed

theorem dirty_flag_tracks_unsaved_mutations_witness:
  "snd (foldl track_ended ((example_loaded, []), False)
          [DragEnd 1 0, SaveOrder, Answer 0 (Response 500 None)])
   \<and> hasUnsavedChanges (fst (fst (foldl track_ended ((example_loaded, []), False)
          [DragEnd 1 0, SaveOrder, Answer 0 (Response 500 None)])))
   \<and> hasUnsavedChanges (fst (example_saving, [SaveTask]))
   \<and> saves (example_saving, [SaveTask]) (Answer 0 (Response 200 (Some (JObj []))))
   \<and> \<not> hasUnsavedChanges (fst (fst (step (example_saving, [SaveTask])
          (Answer 0 (Response 200 (Some (JObj [])))))))"
proof -
  have i: "False \<longrightarrow> hasUnsavedChanges (fst (example_loaded, []))" by simp
  have s: "snd (foldl track_ended ((example_loaded, []), False)
          [DragEnd 1 0, SaveOrder, Answer 0 (Response 500 None)])"
    by (simp only: example_run_failed_save snd_conv)
  have d: "hasUnsavedChanges (fst (example_saving, [SaveTask]))"
    by (simp add: example_saving_def example_dirty_eq)
  have sv: "saves (example_saving, [SaveTask]) (Answer 0 (Response 200 (Some (JObj []))))"
    using succeeds_200 by simp
  have m: "True \<longrightarrow> hasUnsavedChanges (fst (example_saving, [SaveTask]))"
    using d by simp
  from dirty_flag_tracks_unsaved_mutations [OF i,
      of "[DragEnd 1 0, SaveOrder, Answer 0 (Response 500 None)]"] s
  have a: "hasUnsavedChanges (fst (fst (foldl track_ended ((example_loaded, []), False)
          [DragEnd 1 0, SaveOrder, Answer 0 (Response 500 None)])))"
    by blast
  from dirty_flag_tracks_unsaved_mutations [OF m, of "[]" "Answer 0 (Response 200 (Some (JObj [])))"] sv
  have b: "\<not> hasUnsavedChanges (fst (fst (step (example_saving, [SaveTask])
          (Answer 0 (Response 200 (Some (JObj [])))))))"
    by blast
  show ?thesis using s a d b sv by blast
qed

text \<open>
  C6, where a successful save is not the only event that clears the flag. After a drag,
  the operator approves and declines to save first; the approve call succeeds and
  \<open>disableAllActions\<close> clears the flag, while \<open>photoOrder\<close> still differs from
  \<open>originalOrder\<close> and \<open>track\<close> records a mutation that no save followed. Each event of the
  run is one the operator can trigger.
\<close>

theorem approve_clears_dirty_flag_counterexample:
  "foldl track ((example_loaded, []), False)
       [DragEnd 1 0, ApproveOrder False, Answer 0 (Response 200 (Some (JObj [])))]
     = ((example_approving\<lparr>hasUnsavedChanges := False,
          saveOrderBtnDisabled := True, rejectBtnDisabled := True,
          bottomBtnsDisabled := True, confirmModal := Some OrderApproved\<rparr>, []), True)
   \<and> photoOrder example_approving = JArr [JStr (ascii ''b/02-1.jpg''), JStr (ascii ''a/01-1.jpg'')]
   \<and> originalOrder example_approving = [JStr (ascii ''a/01-1.jpg''), JStr (ascii ''b/02-1.jpg'')]
   \<and> enabled (example_loaded, []) (DragEnd 1 0)
   \<and> enabled (example_dirty, []) (ApproveOrder False)
   \<and> enabled (example_approving, [ApproveTask]) (Answer 0 (Response 200 (Some (JObj []))))"
proof -
  have t1: "track ((example_loaded, []), False) (DragEnd 1 0) = ((example_dirty, []), True)"
    unfolding track.simps example_drag using example_drag_mutates by simp
  have t2: "track ((example_dirty, []), True) (ApproveOrder False)
              = ((example_approving, [ApproveTask]), True)"
    unfolding track.simps example_approve_begin by simp
  have t3: "track ((example_approving, [ApproveTask]), True) (Answer 0 (Response 200 (Some (JObj []))))
              = ((example_approving\<lparr>hasUnsavedChanges := False,
                   saveOrderBtnDisabled := True, rejectBtnDisabled := True,
                   bottomBtnsDisabled := True, confirmModal := Some OrderApproved\<rparr>, []), True)"
    unfolding track.simps example_approve_answer by simp
  have run: "foldl track ((example_loaded, []), False)
       [DragEnd 1 0, ApproveOrder False, Answer 0 (Response 200 (Some (JObj [])))]
     = ((example_approving\<lparr>hasUnsavedChanges := False,
          saveOrderBtnDisabled := True, rejectBtnDisabled := True,
          bottomBtnsDisabled := True, confirmModal := Some OrderApproved\<rparr>, []), True)"
    by (simp only: foldl.simps t1 t2 t3)
  have st: "photoOrder example_approving = JArr [JStr (ascii ''b/02-1.jpg''), JStr (ascii ''a/01-1.jpg'')]"
    "originalOrder example_approving = [JStr (ascii ''a/01-1.jpg''), JStr (ascii ''b/02-1.jpg'')]"
    by (simp_all add: example_approving_def example_dirty_eq example_loaded_eq)
  have en: "enabled (example_approving, [ApproveTask]) (Answer 0 (Response 200 (Some (JObj []))))"
    by simp
  show ?thesis
    using run st example_drag_enabled example_approve_enabled en by (intro conjI)
qed

text \<open>
  A drag that comes between a save request and its answer is outside the statement
  above, which counts from the completion of the save: the answer clears the flag and
  snapshots the order of that moment, though the request carried the order from before
  the drag. Here the request holds the dragged order, and the session ends with the
  first order and the flag false.
\<close>

lemma drag_during_save_example:
  "operate (example_loaded, [])
       [DragEnd 1 0, SaveOrder, DragEnd 1 0, Answer 0 (Response 200 (Some (JObj [])))]
     = ((example_loaded\<lparr>saveStatus := Saved, saveOrderBtnDisabled := False\<rparr>, []),
        [example_save_request])"
proof -
  let ?undone = "example_loaded\<lparr>hasUnsavedChanges := True, saveStatus := UnsavedChanges,
          saveOrderBtnDisabled := False\<rparr>"
  have en: "enabled (?undone, [SaveTask]) (Answer 0 (Response 200 (Some (JObj []))))"
    by simp
  have o4: "operate (?undone, [SaveTask]) [Answer 0 (Response 200 (Some (JObj [])))]
              = ((example_loaded\<lparr>saveStatus := Saved, saveOrderBtnDisabled := False\<rparr>, []), [])"
    unfolding operate.simps using en by (simp only: example_late_answer if_True Let_def split_conv append_Nil)
  have o3: "operate (example_saving, [SaveTask]) [DragEnd 1 0, Answer 0 (Response 200 (Some (JObj [])))]
              = ((example_loaded\<lparr>saveStatus := Saved, saveOrderBtnDisabled := False\<rparr>, []), [])"
    using example_drag_back_enabled
    by (subst operate.simps) (simp only: example_drag_back o4 if_True Let_def split_conv append_Nil)
  have o2: "operate (example_dirty, []) [SaveOrder, DragEnd 1 0, Answer 0 (Response 200 (Some (JObj [])))]
              = ((example_loaded\<lparr>saveStatus := Saved, saveOrderBtnDisabled := False\<rparr>, []),
                 [example_save_request])"
    using example_save_enabled
    by (subst operate.simps) (simp only: example_save_begin o3 if_True Let_def split_conv append.simps)
  show ?thesis
    using example_drag_enabled
    by (subst operate.simps) (simp only: example_drag o2 if_True Let_def split_conv append_Nil)
qed

lemma drag_during_save_state:
  "hasUnsavedChanges (example_loaded\<lparr>saveStatus := Saved, saveOrderBtnDisabled := False\<rparr>) = False"
  "photoOrder (example_loaded\<lparr>saveStatus := Saved, saveOrderBtnDisabled := False\<rparr>)
     = JArr [JStr (ascii ''a/01-1.jpg''), JStr (ascii ''b/02-1.jpg'')]"
  by (simp_all add: example_loaded_eq initial_session_def)

end
